theory Spec2Isabelle
  imports Main
begin

section \<open>Strings as the TypeScript code uses them\<close>

text \<open>
  A TypeScript \<^verbatim>\<open>string | null\<close> is a \<open>string option\<close>. JavaScript truthiness of
  such a value (\<^verbatim>\<open>if (record.email)\<close>) holds for a non-null, non-empty string; of a
  plain \<^verbatim>\<open>string\<close> it holds for a non-empty one.
\<close>

definition truthy :: "string option \<Rightarrow> bool" where
  "truthy v = (case v of None \<Rightarrow> False | Some s \<Rightarrow> s \<noteq> [])"

text \<open>\<^verbatim>\<open>/\D/\<close> is every character outside \<^verbatim>\<open>0-9\<close>.\<close>

definition isDigit :: "char \<Rightarrow> bool" where
  "isDigit c = (c \<in> set ''0123456789'')"

text \<open>
  Case folding and trimming are modelled on ASCII: letters \<^verbatim>\<open>A-Z\<close> fold to
  \<^verbatim>\<open>a-z\<close>, and \<^verbatim>\<open>trim()\<close> removes space, tab, line feed, vertical tab,
  form feed and carriage return at both ends.
\<close>

definition toLowerChar :: "char \<Rightarrow> char" where
  "toLowerChar c =
     (case map_of (zip ''ABCDEFGHIJKLMNOPQRSTUVWXYZ'' ''abcdefghijklmnopqrstuvwxyz'') c of
        Some d \<Rightarrow> d
      | None \<Rightarrow> c)"

definition toLowerCase :: "string \<Rightarrow> string" where
  "toLowerCase s = map toLowerChar s"

definition isSpace :: "char \<Rightarrow> bool" where
  "isSpace c = (c \<in> set [CHR '' '', CHR 0x09, CHR 0x0A, CHR 0x0B, CHR 0x0C, CHR 0x0D])"

definition trim :: "string \<Rightarrow> string" where
  "trim s = rev (dropWhile isSpace (rev (dropWhile isSpace s)))"

section \<open>Data model\<close>

text \<open>\<^verbatim>\<open>ParsedRecord\<close> of \<^verbatim>\<open>lib/csv-parser.ts\<close>; the interface
  \<^verbatim>\<open>AudienceMember\<close> of \<^verbatim>\<open>lib/meta-api.ts\<close> has the same four fields.\<close>

record ParsedRecord =
  firstName :: string
  lastName :: string
  email :: "string option"
  phone :: "string option"

type_synonym AudienceMember = ParsedRecord

text \<open>Modelled from the spec: the constant \<^verbatim>\<open>AUDIENCE_STATUS\<close> is imported from
  \<^verbatim>\<open>@/lib/deduplication\<close> but its declaration is not among the sources; the two
  values are the ones the data model names.\<close>

datatype status = ACTIVE | NO_IDENTIFIER

text \<open>A row of table \<^verbatim>\<open>audience_members\<close> (the Prisma model \<^verbatim>\<open>audienceMember\<close>).
  The text columns are nullable; timestamps are abstract clock values.\<close>

record audienceMember =
  m_id :: nat
  m_clientId :: nat
  m_email :: "string option"
  m_phone :: "string option"
  m_firstName :: "string option"
  m_lastName :: "string option"
  m_dateAdded :: nat
  m_daysRemaining :: int
  m_sourceFile :: "string option"
  m_updatedAt :: nat
  m_status :: status

text \<open>The persisted store: the rows in table order, the next value of the
  \<^verbatim>\<open>SERIAL\<close> key, and the known clients (id and name).\<close>

record db =
  members :: "audienceMember list"
  nextId :: nat
  clients :: "(nat \<times> string) list"

section \<open>Lifecycle: the first two steps of the daily job\<close>

text \<open>
  \<^verbatim>\<open>prisma.audienceMember.updateMany({ where: { daysRemaining: { gt: 0 } },
     data: { daysRemaining: { decrement: 1 } } })\<close>
\<close>

definition decrementAll :: "db \<Rightarrow> db" where
  "decrementAll s =
     s\<lparr>members :=
         map (\<lambda>m. if m_daysRemaining m > 0
                  then m\<lparr>m_daysRemaining := m_daysRemaining m - 1\<rparr>
                  else m)
             (members s)\<rparr>"

text \<open>
  \<^verbatim>\<open>prisma.audienceMember.deleteMany({ where: { daysRemaining: { lte: 0 } } })\<close>,
  whose \<^verbatim>\<open>count\<close> is the number of rows deleted.
\<close>

definition expireAll :: "db \<Rightarrow> nat \<times> db" where
  "expireAll s =
     (length (filter (\<lambda>m. m_daysRemaining m \<le> 0) (members s)),
      s\<lparr>members := filter (\<lambda>m. \<not> m_daysRemaining m \<le> 0) (members s)\<rparr>)"

section \<open>Sync formatting (\<^verbatim>\<open>lib/meta-api.ts\<close>)\<close>

record FormattedRecord =
  EMAIL :: "string option"
  PHONE :: "string option"
  FN :: "string option"
  LN :: "string option"

definition BATCH_SIZE_meta :: nat where
  "BATCH_SIZE_meta = 1000"

text \<open>\<^verbatim>\<open>hashValue\<close> is the SHA-256 hex digest of the crypto library; it is the
  parameter \<open>H\<close> of everything below.\<close>

definition normalizeAndHashEmail :: "(string \<Rightarrow> string) \<Rightarrow> string \<Rightarrow> string" where
  "normalizeAndHashEmail H e = (let normalized = trim (toLowerCase e) in H normalized)"

definition normalizeAndHashPhone :: "(string \<Rightarrow> string) \<Rightarrow> string \<Rightarrow> string" where
  "normalizeAndHashPhone H p =
     (let digitsOnly = filter isDigit p;
          normalized = (if length digitsOnly = 11 \<and> take 1 digitsOnly = ''1''
                        then drop 1 digitsOnly
                        else digitsOnly)
      in H normalized)"

definition normalizeAndHashName :: "(string \<Rightarrow> string) \<Rightarrow> string \<Rightarrow> string" where
  "normalizeAndHashName H n = (let normalized = trim (toLowerCase n) in H normalized)"

text \<open>\<^verbatim>\<open>normalizePhone\<close> of \<^verbatim>\<open>lib/csv-parser.ts\<close>: what the store and the matcher keep.\<close>

definition normalizePhone :: "string \<Rightarrow> string" where
  "normalizePhone p = filter isDigit p"

text \<open>The body of the loop of \<^verbatim>\<open>formatAudienceData\<close> for a member that is kept.\<close>

definition formatMember :: "(string \<Rightarrow> string) \<Rightarrow> AudienceMember \<Rightarrow> FormattedRecord" where
  "formatMember H member =
     \<lparr>EMAIL = (case email member of
                 None \<Rightarrow> None
               | Some e \<Rightarrow> if e \<noteq> [] then Some (normalizeAndHashEmail H e) else None),
      PHONE = (case phone member of
                 None \<Rightarrow> None
               | Some p \<Rightarrow> if p \<noteq> [] then Some (normalizeAndHashPhone H p) else None),
      FN = (if firstName member \<noteq> [] then Some (normalizeAndHashName H (firstName member))
            else None),
      LN = (if lastName member \<noteq> [] then Some (normalizeAndHashName H (lastName member))
            else None)\<rparr>"

fun formatAudienceData :: "(string \<Rightarrow> string) \<Rightarrow> AudienceMember list \<Rightarrow> FormattedRecord list" where
  "formatAudienceData H [] = []"
| "formatAudienceData H (member # rest) =
     (if \<not> truthy (email member) \<and> \<not> truthy (phone member)
      then formatAudienceData H rest
      else formatMember H member # formatAudienceData H rest)"

text \<open>The batching loop of \<^verbatim>\<open>uploadToCustomerList\<close>:
  \<^verbatim>\<open>for (let i = 0; i < data.length; i += BATCH_SIZE) batches.push(data.slice(i, i + BATCH_SIZE))\<close>.\<close>

function splitBatches :: "nat \<Rightarrow> 'a list \<Rightarrow> 'a list list" where
  "splitBatches i data =
     (if i < length data
      then take BATCH_SIZE_meta (drop i data) # splitBatches (i + BATCH_SIZE_meta) data
      else [])"
  by pat_completeness auto
termination
  by (relation "measure (\<lambda>(i, data). length data - i)") (auto simp: BATCH_SIZE_meta_def)

declare splitBatches.simps [simp del]

section \<open>Queries and writes of the persistence layer\<close>

text \<open>
  Prisma's \<^verbatim>\<open>equals\<close> on a nullable text column never holds for a null column;
  with \<^verbatim>\<open>mode: 'insensitive'\<close> it compares without regard to letter case, taken
  here as equality of the ASCII-lowercased strings. The queries and writes themselves do
  not fail in this model except where stated, so the \<^verbatim>\<open>catch\<close> blocks around a
  query alone (\<^verbatim>\<open>Row n dedup\<close>, \<^verbatim>\<open>Batch insert failed\<close>) have no branch below.
\<close>

definition equalsInsensitive :: "string option \<Rightarrow> string \<Rightarrow> bool" where
  "equalsInsensitive col v =
     (case col of None \<Rightarrow> False | Some c \<Rightarrow> toLowerCase c = toLowerCase v)"

definition equalsExact :: "string option \<Rightarrow> string \<Rightarrow> bool" where
  "equalsExact col v = (case col of None \<Rightarrow> False | Some c \<Rightarrow> c = v)"

text \<open>\<^verbatim>\<open>findFirst\<close> without \<^verbatim>\<open>orderBy\<close>: a row that satisfies the
  \<^verbatim>\<open>where\<close> clause, here the first one in the order in which the store holds its
  rows. The source fixes no order, so the properties of repeated runs below are stated
  for a second run over the same rows in any order.\<close>

definition findFirst :: "(audienceMember \<Rightarrow> bool) \<Rightarrow> db \<Rightarrow> audienceMember option" where
  "findFirst wh s = find wh (members s)"

text \<open>The four \<^verbatim>\<open>where\<close> clauses used by the matchers.\<close>

definition whereEmailName :: "nat \<Rightarrow> string \<Rightarrow> string \<Rightarrow> string \<Rightarrow> audienceMember \<Rightarrow> bool" where
  "whereEmailName cid e fn ln m =
     (m_clientId m = cid \<and> equalsInsensitive (m_email m) e \<and>
      equalsInsensitive (m_firstName m) fn \<and> equalsInsensitive (m_lastName m) ln)"

definition wherePhoneName :: "nat \<Rightarrow> string \<Rightarrow> string \<Rightarrow> string \<Rightarrow> audienceMember \<Rightarrow> bool" where
  "wherePhoneName cid p fn ln m =
     (m_clientId m = cid \<and> equalsExact (m_phone m) p \<and>
      equalsInsensitive (m_firstName m) fn \<and> equalsInsensitive (m_lastName m) ln)"

definition whereEmail :: "nat \<Rightarrow> string \<Rightarrow> audienceMember \<Rightarrow> bool" where
  "whereEmail cid e m = (m_clientId m = cid \<and> equalsInsensitive (m_email m) e)"

definition wherePhone :: "nat \<Rightarrow> string \<Rightarrow> audienceMember \<Rightarrow> bool" where
  "wherePhone cid p m = (m_clientId m = cid \<and> equalsExact (m_phone m) p)"

text \<open>\<^verbatim>\<open>create\<close>: the row gets the next key and is appended to the table. The
  table has a foreign key on \<^verbatim>\<open>clientId\<close> (first migration), so the insert is
  rejected for a client that does not exist. \<^verbatim>\<open>processRecords\<close> looks the client up
  before any write; \<^verbatim>\<open>processRecordWithMatch\<close> does not, and has the rejection as a
  branch of its own below.\<close>

definition create :: "audienceMember \<Rightarrow> db \<Rightarrow> audienceMember \<times> db" where
  "create data s =
     (let m = data\<lparr>m_id := nextId s\<rparr>
      in (m, s\<lparr>members := members s @ [m], nextId := Suc (nextId s)\<rparr>))"

text \<open>\<^verbatim>\<open>update({ where: { id }, data })\<close>: fails when no row has the key (the text
  stands for the storage layer's message); otherwise the data is written to the row
  with that key.\<close>

definition update :: "nat \<Rightarrow> (audienceMember \<Rightarrow> audienceMember) \<Rightarrow> db \<Rightarrow> string + db" where
  "update k data s =
     (if k \<in> m_id ` set (members s)
      then Inr (s\<lparr>members := map (\<lambda>m. if m_id m = k then data m else m) (members s)\<rparr>)
      else Inl ''Record to update not found.'')"

text \<open>Decimal rendering of a number inside a template string.\<close>

function showNat :: "nat \<Rightarrow> string" where
  "showNat n =
     (if n < 10 then [''0123456789'' ! n]
      else showNat (n div 10) @ [''0123456789'' ! (n mod 10)])"
  by pat_completeness auto
termination
  by (relation "measure id") auto

declare showNat.simps [simp del]

definition DAYS_REMAINING_DEFAULT :: int where
  "DAYS_REMAINING_DEFAULT = 30"

definition BATCH_SIZE :: nat where
  "BATCH_SIZE = 100"

text \<open>\<^verbatim>\<open>sourceFile || null\<close>\<close>

definition orNull :: "string option \<Rightarrow> string option" where
  "orNull v = (if truthy v then v else None)"

section \<open>Bulk file ingestion (the module of \<^verbatim>\<open>processRecords\<close>)\<close>

record DeduplicationResult =
  isNew :: bool
  audienceMemberId :: "nat option"
  matchedOn :: "string option"

record ProcessingResult =
  newRecords :: nat
  duplicates :: nat
  updated :: nat
  errors :: "string list"

definition deduplicateRecord :: "ParsedRecord \<Rightarrow> nat \<Rightarrow> db \<Rightarrow> DeduplicationResult" where
  "deduplicateRecord record cid s =
     (case (case email record of
              None \<Rightarrow> None
            | Some e \<Rightarrow>
                if e \<noteq> []
                then findFirst (whereEmailName cid e (firstName record) (lastName record)) s
                else None) of
        Some emailMatch \<Rightarrow>
          \<lparr>isNew = False, audienceMemberId = Some (m_id emailMatch),
           matchedOn = Some ''email+name''\<rparr>
      | None \<Rightarrow>
          (case (case phone record of
                   None \<Rightarrow> None
                 | Some p \<Rightarrow>
                     if p \<noteq> []
                     then findFirst (wherePhoneName cid p (firstName record) (lastName record)) s
                     else None) of
             Some phoneMatch \<Rightarrow>
               \<lparr>isNew = False, audienceMemberId = Some (m_id phoneMatch),
                matchedOn = Some ''phone+name''\<rparr>
           | None \<Rightarrow> \<lparr>isNew = True, audienceMemberId = None, matchedOn = None\<rparr>))"

text \<open>
  The row written by \<^verbatim>\<open>create\<close> in this module. The code sets neither
  \<^verbatim>\<open>status\<close> nor \<^verbatim>\<open>updatedAt\<close>: the status is the column default, which the
  Prisma schema declares and which is not among the sources (the parameter \<open>dflt\<close>), and
  the storage layer stamps \<^verbatim>\<open>updatedAt\<close> with the clock.
\<close>

definition newMember :: "status \<Rightarrow> ParsedRecord \<Rightarrow> nat \<Rightarrow> string option \<Rightarrow> nat \<Rightarrow> audienceMember" where
  "newMember dflt record cid sourceFile today =
     \<lparr>m_id = 0, m_clientId = cid, m_email = email record, m_phone = phone record,
      m_firstName = Some (firstName record), m_lastName = Some (lastName record),
      m_dateAdded = today, m_daysRemaining = DAYS_REMAINING_DEFAULT,
      m_sourceFile = orNull sourceFile, m_updatedAt = today, m_status = dflt\<rparr>"

text \<open>The \<^verbatim>\<open>data\<close> of the update of a matched row, the same in both paths.\<close>

definition overwrite :: "ParsedRecord \<Rightarrow> nat \<Rightarrow> audienceMember \<Rightarrow> audienceMember" where
  "overwrite record today m =
     m\<lparr>m_daysRemaining := DAYS_REMAINING_DEFAULT, m_email := email record,
       m_phone := phone record, m_firstName := Some (firstName record),
       m_lastName := Some (lastName record), m_updatedAt := today\<rparr>"

text \<open>\<^verbatim>\<open>update({ where: { id: dedupResult.audienceMemberId! }, ... })\<close>: a null key is
  rejected by the storage layer.\<close>

definition updateMatched :: "nat option \<Rightarrow> ParsedRecord \<Rightarrow> nat \<Rightarrow> db \<Rightarrow> string + db" where
  "updateMatched k record today s =
     (case k of
        None \<Rightarrow> Inl ''Argument id must not be null.''
      | Some i \<Rightarrow> update i (overwrite record today) s)"

text \<open>\<^verbatim>\<open>processIndividualRecords\<close>: the loop from row \<open>i\<close> on; \<open>result\<close> is the
  summary object the caller passes in and reads afterwards.\<close>

fun processIndividualRecords ::
  "status \<Rightarrow> nat \<Rightarrow> ParsedRecord list \<Rightarrow> nat \<Rightarrow> string option \<Rightarrow> nat \<Rightarrow>
     ProcessingResult \<times> db \<Rightarrow> ProcessingResult \<times> db" where
  "processIndividualRecords dflt i [] cid sourceFile today (result, s) = (result, s)"
| "processIndividualRecords dflt i (record # rest) cid sourceFile today (result, s) =
     (let dedupResult = deduplicateRecord record cid s
      in if isNew dedupResult
         then processIndividualRecords dflt (i + 1) rest cid sourceFile today
                (result\<lparr>newRecords := newRecords result + 1\<rparr>,
                 snd (create (newMember dflt record cid sourceFile today) s))
         else (case updateMatched (audienceMemberId dedupResult) record today s of
                 Inr s' \<Rightarrow>
                   processIndividualRecords dflt (i + 1) rest cid sourceFile today
                     (result\<lparr>updated := updated result + 1,
                             duplicates := duplicates result + 1\<rparr>, s')
               | Inl errorMessage \<Rightarrow>
                   processIndividualRecords dflt (i + 1) rest cid sourceFile today
                     (result\<lparr>errors := errors result @
                                [''Row '' @ showNat (i + 1) @ '': '' @ errorMessage]\<rparr>, s)))"

text \<open>First phase of \<^verbatim>\<open>processBatchedRecords\<close>: every row is resolved against the
  store as it is before any write.\<close>

fun categorize ::
  "ParsedRecord list \<Rightarrow> nat \<Rightarrow> db \<Rightarrow>
     ParsedRecord list \<times> (ParsedRecord \<times> nat option \<times> string) list" where
  "categorize [] cid s = ([], [])"
| "categorize (record # rest) cid s =
     (let dedupResult = deduplicateRecord record cid s;
          (newRs, updateRs) = categorize rest cid s
      in if isNew dedupResult then (record # newRs, updateRs)
         else (newRs,
               (record, audienceMemberId dedupResult,
                (case matchedOn dedupResult of None \<Rightarrow> ''unknown''
                 | Some t \<Rightarrow> if t \<noteq> [] then t else ''unknown'')) # updateRs))"

text \<open>\<^verbatim>\<open>createMany\<close> with \<^verbatim>\<open>skipDuplicates\<close>: the table has no unique key besides
  the generated id (see the first migration), so every row is inserted.\<close>

fun createMany :: "audienceMember list \<Rightarrow> db \<Rightarrow> db" where
  "createMany [] s = s"
| "createMany (d # ds) s = createMany ds (snd (create d s))"

text \<open>\<^verbatim>\<open>prisma.$transaction([...])\<close>: the updates run in order; the first failure
  undoes the whole batch.\<close>

fun transaction :: "(ParsedRecord \<times> nat option \<times> string) list \<Rightarrow> nat \<Rightarrow> db \<Rightarrow> string + db" where
  "transaction [] today s = Inr s"
| "transaction ((record, k, t) # rest) today s =
     (case updateMatched k record today s of
        Inl e \<Rightarrow> Inl e
      | Inr s' \<Rightarrow> transaction rest today s')"

text \<open>Third phase: \<^verbatim>\<open>for (let i = 0; i < updateRecords.length; i += BATCH_SIZE)\<close>.\<close>

function updateBatches ::
  "nat \<Rightarrow> (ParsedRecord \<times> nat option \<times> string) list \<Rightarrow> nat \<Rightarrow>
     ProcessingResult \<times> db \<Rightarrow> ProcessingResult \<times> db" where
  "updateBatches i updateRs today (result, s) =
     (if i < length updateRs
      then (let batch = take BATCH_SIZE (drop i updateRs)
            in case transaction batch today s of
                 Inr s' \<Rightarrow>
                   updateBatches (i + BATCH_SIZE) updateRs today
                     (result\<lparr>updated := updated result + length batch,
                             duplicates := duplicates result + length batch\<rparr>, s')
               | Inl errorMessage \<Rightarrow>
                   updateBatches (i + BATCH_SIZE) updateRs today
                     (result\<lparr>errors := errors result @
                                [''Batch update '' @ showNat (i div BATCH_SIZE + 1) @
                                 '' failed: '' @ errorMessage]\<rparr>, s))
      else (result, s))"
  by pat_completeness auto
termination
  by (relation "measure (\<lambda>(i, updateRs, today, rs). length updateRs - i)")
     (auto simp: BATCH_SIZE_def)

declare updateBatches.simps [simp del]

definition processBatchedRecords ::
  "status \<Rightarrow> ParsedRecord list \<Rightarrow> nat \<Rightarrow> string option \<Rightarrow> nat \<Rightarrow>
     ProcessingResult \<times> db \<Rightarrow> ProcessingResult \<times> db" where
  "processBatchedRecords dflt records cid sourceFile today rs =
     (let (result, s) = rs;
          (newRs, updateRs) = categorize records cid s;
          (result1, s1) =
            (if length newRs > 0
             then (result\<lparr>newRecords := length newRs\<rparr>,
                   createMany (map (\<lambda>record. newMember dflt record cid sourceFile today) newRs) s)
             else (result, s))
      in updateBatches 0 updateRs today (result1, s1))"

definition processRecords ::
  "status \<Rightarrow> ParsedRecord list \<Rightarrow> nat \<Rightarrow> string option \<Rightarrow> nat \<Rightarrow> db \<Rightarrow>
     string + (ProcessingResult \<times> db)" where
  "processRecords dflt records cid sourceFile today s =
     (let result = \<lparr>newRecords = 0, duplicates = 0, updated = 0, errors = []\<rparr>
      in if length records = 0 then Inr (result, s)
         else if cid \<notin> fst ` set (clients s)
         then Inl (''Invalid clientId: '' @ showNat cid @ '' does not exist'')
         else if length records > BATCH_SIZE
         then Inr (processBatchedRecords dflt records cid sourceFile today (result, s))
         else Inr (processIndividualRecords dflt 0 records cid sourceFile today (result, s)))"

section \<open>Match-append (the module of \<^verbatim>\<open>processRecordWithMatch\<close>)\<close>

datatype MatchAction = Created | Updated | Skipped

text \<open>\<^verbatim>\<open>'email+name' | 'phone+name' | 'email' | 'phone' | 'none'\<close>\<close>

datatype MatchStrategy = EmailName | PhoneName | EmailOnly | PhoneOnly | NoStrategy

record ProcessRecordResult =
  action :: MatchAction
  recordId :: nat
  matchedBy :: "MatchStrategy option"
  fieldsUpdated :: "string list option"

record BatchProcessResult =
  b_created :: nat
  b_updated :: nat
  b_skipped :: nat
  b_noIdentifier :: nat
  b_results :: "ProcessRecordResult list"
  b_errors :: "string list"

datatype Mode = Append | Update

record MatchAppendOptions =
  o_mode :: Mode
  o_clientId :: nat
  o_sourceFile :: "string option"

definition findMatchingRecord ::
  "ParsedRecord \<Rightarrow> nat \<Rightarrow> db \<Rightarrow> (audienceMember \<times> MatchStrategy) option" where
  "findMatchingRecord record cid s =
     (case (case email record of
              None \<Rightarrow> None
            | Some e \<Rightarrow>
                if e \<noteq> [] \<and> firstName record \<noteq> [] \<and> lastName record \<noteq> []
                then findFirst (whereEmailName cid e (firstName record) (lastName record)) s
                else None) of
        Some match \<Rightarrow> Some (match, EmailName)
      | None \<Rightarrow>
     (case (case phone record of
              None \<Rightarrow> None
            | Some p \<Rightarrow>
                if p \<noteq> [] \<and> firstName record \<noteq> [] \<and> lastName record \<noteq> []
                then findFirst (wherePhoneName cid p (firstName record) (lastName record)) s
                else None) of
        Some match \<Rightarrow> Some (match, PhoneName)
      | None \<Rightarrow>
     (case (case email record of
              None \<Rightarrow> None
            | Some e \<Rightarrow> if e \<noteq> [] then findFirst (whereEmail cid e) s else None) of
        Some match \<Rightarrow> Some (match, EmailOnly)
      | None \<Rightarrow>
     (case (case phone record of
              None \<Rightarrow> None
            | Some p \<Rightarrow> if p \<noteq> [] then findFirst (wherePhone cid p) s else None) of
        Some match \<Rightarrow> Some (match, PhoneOnly)
      | None \<Rightarrow> None))))"

text \<open>\<^verbatim>\<open>email && email.trim().length > 0\<close>\<close>

definition nonBlank :: "string option \<Rightarrow> bool" where
  "nonBlank v = (case v of None \<Rightarrow> False | Some x \<Rightarrow> x \<noteq> [] \<and> length (trim x) > 0)"

definition getRecordStatus :: "string option \<Rightarrow> string option \<Rightarrow> status" where
  "getRecordStatus e p =
     (let hasEmail = nonBlank e; hasPhone = nonBlank p
      in if hasEmail \<or> hasPhone then ACTIVE else NO_IDENTIFIER)"

text \<open>The \<^verbatim>\<open>updateData\<close> object of update mode, as the change it makes to the row,
  and the list \<^verbatim>\<open>fieldsUpdated\<close> built beside it.\<close>

definition updateData :: "ParsedRecord \<Rightarrow> nat \<Rightarrow> audienceMember \<Rightarrow> audienceMember \<Rightarrow> audienceMember" where
  "updateData record today matched m =
     (let m0 = m\<lparr>m_updatedAt := today\<rparr>;
          m1 = (if truthy (email record) \<and> email record \<noteq> m_email matched
                then m0\<lparr>m_email := email record\<rparr> else m0);
          m2 = (if truthy (phone record) \<and> phone record \<noteq> m_phone matched
                then m1\<lparr>m_phone := phone record\<rparr> else m1);
          m3 = (if firstName record \<noteq> [] \<and> Some (firstName record) \<noteq> m_firstName matched
                then m2\<lparr>m_firstName := Some (firstName record)\<rparr> else m2);
          m4 = (if lastName record \<noteq> [] \<and> Some (lastName record) \<noteq> m_lastName matched
                then m3\<lparr>m_lastName := Some (lastName record)\<rparr> else m3);
          hadIdentifier = (truthy (m_email matched) \<or> truthy (m_phone matched));
          hasIdentifierNow = (truthy (email record) \<or> truthy (phone record))
      in if \<not> hadIdentifier \<and> hasIdentifierNow
         then m4\<lparr>m_status := ACTIVE, m_daysRemaining := DAYS_REMAINING_DEFAULT,
                 m_dateAdded := today\<rparr>
         else m4)"

definition fieldsUpdatedOf :: "ParsedRecord \<Rightarrow> audienceMember \<Rightarrow> string list" where
  "fieldsUpdatedOf record matched =
     (if truthy (email record) \<and> email record \<noteq> m_email matched then [''email''] else []) @
     (if truthy (phone record) \<and> phone record \<noteq> m_phone matched then [''phone''] else []) @
     (if firstName record \<noteq> [] \<and> Some (firstName record) \<noteq> m_firstName matched
      then [''firstName''] else []) @
     (if lastName record \<noteq> [] \<and> Some (lastName record) \<noteq> m_lastName matched
      then [''lastName''] else []) @
     (if \<not> (truthy (m_email matched) \<or> truthy (m_phone matched)) \<and>
         (truthy (email record) \<or> truthy (phone record))
      then [''status''] else [])"

text \<open>\<^verbatim>\<open>processRecordWithMatch\<close>; \<open>today\<close> is the \<^verbatim>\<open>new Date()\<close> it takes. The
  function never looks the client up: when no record matches and the client does not
  exist, \<^verbatim>\<open>create\<close> throws (the text stands for the storage layer's message).\<close>

definition foreignKeyViolation :: string where
  "foreignKeyViolation = ''Foreign key constraint violated: audience_members_clientId_fkey''"

definition processRecordWithMatch ::
  "ParsedRecord \<Rightarrow> MatchAppendOptions \<Rightarrow> nat \<Rightarrow> db \<Rightarrow> string + (ProcessRecordResult \<times> db)" where
  "processRecordWithMatch record options today s =
     (let status = getRecordStatus (email record) (phone record)
      in case findMatchingRecord record (o_clientId options) s of
           None \<Rightarrow>
             if o_clientId options \<notin> fst ` set (clients s) then Inl foreignKeyViolation
             else
             (let (newRecord, s') =
                    create \<lparr>m_id = 0, m_clientId = o_clientId options, m_email = email record,
                            m_phone = phone record, m_firstName = Some (firstName record),
                            m_lastName = Some (lastName record), m_dateAdded = today,
                            m_daysRemaining = DAYS_REMAINING_DEFAULT,
                            m_sourceFile = orNull (o_sourceFile options),
                            m_updatedAt = today, m_status = status\<rparr> s
              in Inr (\<lparr>action = Created, recordId = m_id newRecord, matchedBy = None,
                       fieldsUpdated = None\<rparr>, s'))
         | Some (matched, by) \<Rightarrow>
             if o_mode options = Append
             then Inr (\<lparr>action = Skipped, recordId = m_id matched, matchedBy = Some by,
                        fieldsUpdated = None\<rparr>, s)
             else if length (fieldsUpdatedOf record matched) > 0
             then (case update (m_id matched) (updateData record today matched) s of
                     Inl e \<Rightarrow> Inl e
                   | Inr s' \<Rightarrow>
                       Inr (\<lparr>action = Updated, recordId = m_id matched, matchedBy = Some by,
                             fieldsUpdated = Some (fieldsUpdatedOf record matched)\<rparr>, s'))
             else Inr (\<lparr>action = Skipped, recordId = m_id matched, matchedBy = Some by,
                        fieldsUpdated = Some []\<rparr>, s))"

text \<open>The loop of \<^verbatim>\<open>batchProcessWithMatch\<close> from row \<open>i\<close> on. Each call of
  \<^verbatim>\<open>processRecordWithMatch\<close> reads the clock; the rows of one run are given one
  clock value here.\<close>

fun batchLoop ::
  "nat \<Rightarrow> ParsedRecord list \<Rightarrow> MatchAppendOptions \<Rightarrow> nat \<Rightarrow>
     BatchProcessResult \<times> db \<Rightarrow> BatchProcessResult \<times> db" where
  "batchLoop i [] options today (result, s) = (result, s)"
| "batchLoop i (record # rest) options today (result, s) =
     (case processRecordWithMatch record options today s of
        Inr (processResult, s') \<Rightarrow>
          (let r1 = result\<lparr>b_results := b_results result @ [processResult]\<rparr>;
               r2 = (if action processResult = Created then r1\<lparr>b_created := b_created r1 + 1\<rparr>
                     else if action processResult = Updated then r1\<lparr>b_updated := b_updated r1 + 1\<rparr>
                     else if action processResult = Skipped then r1\<lparr>b_skipped := b_skipped r1 + 1\<rparr>
                     else r1);
               r3 = (if getRecordStatus (email record) (phone record) = NO_IDENTIFIER
                     then r2\<lparr>b_noIdentifier := b_noIdentifier r2 + 1\<rparr> else r2)
           in batchLoop (i + 1) rest options today (r3, s'))
      | Inl errorMessage \<Rightarrow>
          batchLoop (i + 1) rest options today
            (result\<lparr>b_errors := b_errors result @
                       [''Row '' @ showNat (i + 1) @ '': '' @ errorMessage]\<rparr>, s))"

definition batchProcessWithMatch ::
  "ParsedRecord list \<Rightarrow> MatchAppendOptions \<Rightarrow> nat \<Rightarrow> db \<Rightarrow> BatchProcessResult \<times> db" where
  "batchProcessWithMatch records options today s =
     (let result = \<lparr>b_created = 0, b_updated = 0, b_skipped = 0, b_noIdentifier = 0,
                    b_results = [], b_errors = []\<rparr>
      in if length records = 0 then (result, s)
         else batchLoop 0 records options today (result, s))"

section \<open>Sample rows and stores for the concrete evaluations\<close>

definition ex_row :: "nat \<Rightarrow> string option \<Rightarrow> string option \<Rightarrow> string \<Rightarrow> string \<Rightarrow> status \<Rightarrow> audienceMember" where
  "ex_row i e p fn ln st =
     \<lparr>m_id = i, m_clientId = 1, m_email = e, m_phone = p, m_firstName = Some fn,
      m_lastName = Some ln, m_dateAdded = 0, m_daysRemaining = 30, m_sourceFile = None,
      m_updatedAt = 0, m_status = st\<rparr>"

definition ex_store :: "audienceMember list \<Rightarrow> db" where
  "ex_store ms = \<lparr>members = ms, nextId = Suc (length ms), clients = [(1, ''acme'')]\<rparr>"

section \<open>The status invariant of the data model\<close>

text \<open>\<open>status = ACTIVE\<close> iff the email or the phone is present and non-blank.
  \<open>unpadded\<close> holds of a value that is not a non-empty string of white space only, the
  one kind of value on which truthiness and non-blankness differ.\<close>

definition statusInvariant :: "audienceMember \<Rightarrow> bool" where
  "statusInvariant m = (m_status m = ACTIVE \<longleftrightarrow> nonBlank (m_email m) \<or> nonBlank (m_phone m))"

definition unpadded :: "string option \<Rightarrow> bool" where
  "unpadded v = (truthy v \<longrightarrow> nonBlank v)"

section \<open>Upload with retry (\<^verbatim>\<open>uploadToCustomerList\<close>)\<close>

definition MAX_RETRIES :: nat where
  "MAX_RETRIES = 3"

definition INITIAL_BACKOFF_MS :: nat where
  "INITIAL_BACKOFF_MS = 1000"

text \<open>
  A value thrown by the platform SDK, with the fields the code reads:
  \<^verbatim>\<open>error instanceof Error\<close>, \<^verbatim>\<open>message\<close>, \<^verbatim>\<open>code\<close>, \<^verbatim>\<open>error_user_msg\<close>, and
  the message and code below \<^verbatim>\<open>_error\<close>, \<^verbatim>\<open>response.error\<close> and \<^verbatim>\<open>body.error\<close>.
\<close>

record remoteError =
  instanceofError :: bool
  e_message :: "string option"
  e_code :: "int option"
  e_error_user_msg :: "string option"
  inner_error_user_msg :: "string option"
  inner_message :: "string option"
  inner_code :: "int option"
  response_message :: "string option"
  response_code :: "int option"
  body_message :: "string option"
  body_code :: "int option"

text \<open>\<^verbatim>\<open>new Error('Unknown error')\<close>\<close>

definition unknownError :: remoteError where
  "unknownError =
     \<lparr>instanceofError = True, e_message = Some ''Unknown error'', e_code = None,
      e_error_user_msg = None, inner_error_user_msg = None, inner_message = None,
      inner_code = None, response_message = None, response_code = None,
      body_message = None, body_code = None\<rparr>"

definition showInt :: "int \<Rightarrow> string" where
  "showInt n = (if n < 0 then ''-'' @ showNat (nat (- n)) else showNat (nat n))"

text \<open>\<^verbatim>\<open>code || 'UNKNOWN'\<close> inside a template string\<close>

definition codeOrUnknown :: "int option \<Rightarrow> string" where
  "codeOrUnknown c =
     (case c of None \<Rightarrow> ''UNKNOWN'' | Some n \<Rightarrow> if n = 0 then ''UNKNOWN'' else showInt n)"

definition bracketed :: "int option \<Rightarrow> string \<Rightarrow> string" where
  "bracketed c msg = ''['' @ codeOrUnknown c @ ''] '' @ msg"

definition formatMetaError :: "remoteError \<Rightarrow> string" where
  "formatMetaError fbError =
     (case (if truthy (inner_error_user_msg fbError) then inner_error_user_msg fbError else None) of
        Some msg \<Rightarrow> bracketed (inner_code fbError) msg
      | None \<Rightarrow>
     (case (if truthy (inner_message fbError) then inner_message fbError else None) of
        Some msg \<Rightarrow> bracketed (inner_code fbError) msg
      | None \<Rightarrow>
     (case (if truthy (response_message fbError) then response_message fbError else None) of
        Some msg \<Rightarrow> bracketed (response_code fbError) msg
      | None \<Rightarrow>
     (case (if truthy (body_message fbError) then body_message fbError else None) of
        Some msg \<Rightarrow> bracketed (body_code fbError) msg
      | None \<Rightarrow>
     (case (if truthy (e_error_user_msg fbError) then e_error_user_msg fbError else None) of
        Some msg \<Rightarrow> bracketed (e_code fbError) msg
      | None \<Rightarrow>
     (case (if truthy (e_message fbError) then e_message fbError else None) of
        Some msg \<Rightarrow> msg
      | None \<Rightarrow> ''Unknown Meta API error''))))))"

text \<open>\<^verbatim>\<open>String.prototype.includesStr\<close>\<close>

fun includesStr :: "string \<Rightarrow> string \<Rightarrow> bool" where
  "includesStr [] sub = (sub = [])"
| "includesStr (c # cs) sub = (take (length sub) (c # cs) = sub \<or> includesStr cs sub)"

definition isRateLimitError :: "remoteError \<Rightarrow> bool" where
  "isRateLimitError error =
     (if instanceofError error
      then (let message = toLowerCase (case e_message error of None \<Rightarrow> [] | Some m \<Rightarrow> m)
            in includesStr message ''rate limit'' \<or> includesStr message ''too many calls'' \<or>
               e_code error = Some 17 \<or> e_code error = Some 4)
      else False)"

text \<open>
  What the run does to the outside: calls of \<^verbatim>\<open>uploadBatch\<close> (batch number and
  attempt) and calls of \<^verbatim>\<open>sleep\<close> (milliseconds). The platform's answer to the
  call for batch \<open>b\<close> at attempt \<open>k\<close> is \<open>remote b k\<close>: \<open>None\<close> when the call returns,
  the thrown value otherwise.
\<close>

datatype effect = UploadBatch nat nat | Sleep nat

type_synonym remote = "nat \<Rightarrow> nat \<Rightarrow> remoteError option"

text \<open>The retry loop \<^verbatim>\<open>for (let attempt = 1; attempt <= MAX_RETRIES; attempt++)\<close> for
  one batch: the final \<^verbatim>\<open>lastError\<close>, whether the batch was uploaded, and the effects.\<close>

function attemptLoop ::
  "remote \<Rightarrow> nat \<Rightarrow> nat \<Rightarrow> remoteError option \<Rightarrow> remoteError option \<times> bool \<times> effect list" where
  "attemptLoop remote batchNumber attempt lastError =
     (if attempt \<le> MAX_RETRIES
      then (case remote batchNumber attempt of
              None \<Rightarrow> (None, True, [UploadBatch batchNumber attempt])
            | Some error \<Rightarrow>
                (let lastError' = (if instanceofError error then error else unknownError);
                     isRateLimit = isRateLimitError error
                 in if attempt < MAX_RETRIES \<and> isRateLimit
                    then (let backoffMs = INITIAL_BACKOFF_MS * 2 ^ (attempt - 1);
                              (e, up, effs) = attemptLoop remote batchNumber (attempt + 1)
                                                (Some lastError')
                          in (e, up, UploadBatch batchNumber attempt # Sleep backoffMs # effs))
                    else if \<not> isRateLimit
                    then (Some lastError', False, [UploadBatch batchNumber attempt])
                    else (let (e, up, effs) = attemptLoop remote batchNumber (attempt + 1)
                                                (Some lastError')
                          in (e, up, UploadBatch batchNumber attempt # effs))))
      else (lastError, False, []))"
  by pat_completeness auto
termination
  by (relation "measure (\<lambda>(remote, batchNumber, attempt, lastError). Suc MAX_RETRIES - attempt)")
     auto

declare attemptLoop.simps [simp del]

record UploadResult =
  success :: bool
  recordsUploaded :: nat

text \<open>A run: its effects in order, the records the platform accepted, and what the
  caller gets (the message of the thrown \<^verbatim>\<open>Error\<close>, or the result).\<close>

record run =
  effects :: "effect list"
  received :: "FormattedRecord list"
  outcome :: "string + UploadResult"

fun uploadBatches :: "remote \<Rightarrow> nat \<Rightarrow> FormattedRecord list list \<Rightarrow> nat \<Rightarrow> run" where
  "uploadBatches remote batchIndex [] totalUploaded =
     \<lparr>effects = [], received = [],
      outcome = Inr \<lparr>success = True, recordsUploaded = totalUploaded\<rparr>\<rparr>"
| "uploadBatches remote batchIndex (batch # rest) totalUploaded =
     (let batchNumber = batchIndex + 1;
          (lastError, uploaded, effs) = attemptLoop remote batchNumber 1 None;
          totalUploaded' = (if uploaded then totalUploaded + length batch else totalUploaded);
          accepted = (if uploaded then batch else [])
      in case lastError of
           Some e \<Rightarrow>
             \<lparr>effects = effs, received = accepted,
              outcome = Inl (''Failed to upload batch '' @ showNat batchNumber @ '': '' @
                             formatMetaError e)\<rparr>
         | None \<Rightarrow>
             (let r = uploadBatches remote (batchIndex + 1) rest totalUploaded'
              in r\<lparr>effects := effs @ effects r, received := accepted @ received r\<rparr>))"

text \<open>\<^verbatim>\<open>initializeApi\<close> fails when a credential is missing from the environment.\<close>

definition uploadToCustomerList ::
  "string option \<Rightarrow> string option \<Rightarrow> remote \<Rightarrow> FormattedRecord list \<Rightarrow> run" where
  "uploadToCustomerList META_ACCESS_TOKEN META_AD_ACCOUNT_ID remote data =
     (if \<not> truthy META_ACCESS_TOKEN
      then \<lparr>effects = [], received = [],
            outcome = Inl ''Meta API credentials not configured: META_ACCESS_TOKEN missing''\<rparr>
      else if \<not> truthy META_AD_ACCOUNT_ID
      then \<lparr>effects = [], received = [],
            outcome = Inl ''Meta API credentials not configured: META_AD_ACCOUNT_ID missing''\<rparr>
      else if length data = 0
      then \<lparr>effects = [], received = [],
            outcome = Inr \<lparr>success = True, recordsUploaded = 0\<rparr>\<rparr>
      else uploadBatches remote 0 (splitBatches 0 data) 0)"

text \<open>The conversion \<^verbatim>\<open>error instanceof Error ? error : new Error('Unknown error')\<close>.\<close>

definition asError :: "remoteError \<Rightarrow> remoteError" where
  "asError error = (if instanceofError error then error else unknownError)"

text \<open>Vocabulary for the contract of a run: the error a batch ends with, if any; the
  calls of \<^verbatim>\<open>uploadBatch\<close> among the effects; their order (batch number, then
  attempt); and the message of the \<^verbatim>\<open>Error\<close> thrown for a failed batch.\<close>

definition batchFailure :: "remote \<Rightarrow> nat \<Rightarrow> remoteError option" where
  "batchFailure remote b = fst (attemptLoop remote b 1 None)"

fun uploads :: "effect list \<Rightarrow> (nat \<times> nat) list" where
  "uploads [] = []"
| "uploads (UploadBatch b k # es) = (b, k) # uploads es"
| "uploads (Sleep ms # es) = uploads es"

definition before :: "nat \<times> nat \<Rightarrow> nat \<times> nat \<Rightarrow> bool" where
  "before p q = (fst p < fst q \<or> (fst p = fst q \<and> snd p < snd q))"

definition failureMessage :: "nat \<Rightarrow> remoteError \<Rightarrow> string" where
  "failureMessage batchNumber e =
     ''Failed to upload batch '' @ showNat batchNumber @ '': '' @ formatMetaError e"

section \<open>Vocabulary for repeated runs\<close>

text \<open>The matcher restated for the proofs: the applicable strategies in order, each a
  \<^verbatim>\<open>where\<close> clause with its tag, and the first one that finds a row.\<close>

definition strategies :: "ParsedRecord \<Rightarrow> nat \<Rightarrow> ((audienceMember \<Rightarrow> bool) \<times> MatchStrategy) list" where
  "strategies c cid =
     (case email c of
        None \<Rightarrow> []
      | Some e \<Rightarrow> if e \<noteq> [] \<and> firstName c \<noteq> [] \<and> lastName c \<noteq> []
                  then [(whereEmailName cid e (firstName c) (lastName c), EmailName)] else []) @
     (case phone c of
        None \<Rightarrow> []
      | Some p \<Rightarrow> if p \<noteq> [] \<and> firstName c \<noteq> [] \<and> lastName c \<noteq> []
                  then [(wherePhoneName cid p (firstName c) (lastName c), PhoneName)] else []) @
     (case email c of
        None \<Rightarrow> []
      | Some e \<Rightarrow> if e \<noteq> [] then [(whereEmail cid e, EmailOnly)] else []) @
     (case phone c of
        None \<Rightarrow> []
      | Some p \<Rightarrow> if p \<noteq> [] then [(wherePhone cid p, PhoneOnly)] else [])"



text \<open>The \<^verbatim>\<open>where\<close> clause of the first strategy that applies to a row, and a store
  in which at most one record satisfies a clause.\<close>

definition firstStrategy :: "ParsedRecord \<Rightarrow> nat \<Rightarrow> audienceMember \<Rightarrow> bool" where
  "firstStrategy c cid = (case strategies c cid of [] \<Rightarrow> (\<lambda>m. False) | q # qs \<Rightarrow> fst q)"

definition atMostOne :: "(audienceMember \<Rightarrow> bool) \<Rightarrow> db \<Rightarrow> bool" where
  "atMostOne wh s = (length (filter wh (members s)) \<le> 1)"



section \<open>Vocabulary for comparing the two reconciliation paths\<close>



text \<open>The overwrite of the rows with a given id, and the overwrites of a list of matched
  rows in order: what the updates do when none of them fails.\<close>

definition overwriteAt :: "nat \<Rightarrow> ParsedRecord \<Rightarrow> nat \<Rightarrow> db \<Rightarrow> db" where
  "overwriteAt k c today s =
     s\<lparr>members := map (\<lambda>m. if m_id m = k then overwrite c today m else m) (members s)\<rparr>"

fun applyAll :: "(ParsedRecord \<times> nat option \<times> string) list \<Rightarrow> nat \<Rightarrow> db \<Rightarrow> db" where
  "applyAll [] today s = s"
| "applyAll ((c, k, t) # us) today s =
     applyAll us today (case k of None \<Rightarrow> s | Some i \<Rightarrow> overwriteAt i c today s)"

definition ids :: "db \<Rightarrow> nat set" where
  "ids s = m_id ` set (members s)"

definition valid :: "(ParsedRecord \<times> nat option \<times> string) list \<Rightarrow> db \<Rightarrow> bool" where
  "valid us s = (\<forall>(c, k, t) \<in> set us. \<exists>i. k = Some i \<and> i \<in> ids s \<and> i < nextId s)"

section \<open>Lifecycle properties\<close>

lemma length_decrementAll: "length (members (decrementAll s)) = length (members s)"
  by (simp add: decrementAll_def)

lemma ids_decrementAll: "map m_id (members (decrementAll s)) = map m_id (members s)"
  by (simp add: decrementAll_def)

lemma expireAll_members:
  "members (snd (expireAll s)) = filter (\<lambda>m. m_daysRemaining m > 0) (members s)"
  by (simp add: expireAll_def not_le)

lemma expireAll_count:
  "fst (expireAll s) = length (filter (\<lambda>m. m_daysRemaining m \<le> 0) (members s))"
  by (simp add: expireAll_def)

lemma expireAll_total:
  "fst (expireAll s) + length (members (snd (expireAll s))) = length (members s)"
  using sum_length_filter_compl [of "\<lambda>m. m_daysRemaining m \<le> 0" "members s"]
  by (simp add: expireAll_def)

lemma decrementAll_nth:
  "i < length (members s) \<Longrightarrow>
     members (decrementAll s) ! i =
        (if m_daysRemaining (members s ! i) > 0
         then (members s ! i)\<lparr>m_daysRemaining := m_daysRemaining (members s ! i) - 1\<rparr>
         else members s ! i)"
  by (simp add: decrementAll_def)

lemma tick_removes_last_day:
  assumes d: "distinct (map m_id (members s))" and m: "m \<in> set (members s)"
    and one: "m_daysRemaining m = 1"
  shows "m\<lparr>m_daysRemaining := 0\<rparr> \<in> set (members (decrementAll s))"
    and "m_id m \<notin> m_id ` set (members (snd (expireAll (decrementAll s))))"
proof -
  from m one show "m\<lparr>m_daysRemaining := 0\<rparr> \<in> set (members (decrementAll s))"
    by (force simp: decrementAll_def image_iff)
  show "m_id m \<notin> m_id ` set (members (snd (expireAll (decrementAll s))))"
  proof
    assume "m_id m \<in> m_id ` set (members (snd (expireAll (decrementAll s))))"
    then obtain m' where m': "m' \<in> set (members (decrementAll s))"
      and pos: "m_daysRemaining m' > 0" and idm: "m_id m' = m_id m"
      by (auto simp: expireAll_def)
    from m' obtain m0 where m0: "m0 \<in> set (members s)"
      and m'_def: "m' = (if m_daysRemaining m0 > 0
                         then m0\<lparr>m_daysRemaining := m_daysRemaining m0 - 1\<rparr> else m0)"
      by (auto simp: decrementAll_def)
    from m'_def idm have "m_id m0 = m_id m" by (simp split: if_splits)
    with d m m0 have "m0 = m"
      by (meson distinct_map inj_onD)
    with m'_def one pos show False by simp
  qed
qed

text \<open>
  Claim C5. \<open>decrementAll\<close> lowers \<open>daysRemaining\<close> by exactly 1 in every row where it is
  positive and leaves every other row as it was; \<open>expireAll\<close> then deletes exactly the
  rows with \<open>daysRemaining \<le> 0\<close>, keeps all others unchanged and in order, and returns the
  number deleted. A row with \<open>daysRemaining = 1\<close> before the tick is at 0 after
  \<open>decrementAll\<close> and its id is gone after \<open>expireAll\<close>.
\<close>

theorem lifecycle_exact:
  "length (members (decrementAll s)) = length (members s) \<and>
   (\<forall>i < length (members s).
      members (decrementAll s) ! i =
        (if m_daysRemaining (members s ! i) > 0
         then (members s ! i)\<lparr>m_daysRemaining := m_daysRemaining (members s ! i) - 1\<rparr>
         else members s ! i)) \<and>
   members (snd (expireAll s)) = filter (\<lambda>m. m_daysRemaining m > 0) (members s) \<and>
   fst (expireAll s) = length (filter (\<lambda>m. m_daysRemaining m \<le> 0) (members s)) \<and>
   fst (expireAll s) + length (members (snd (expireAll s))) = length (members s) \<and>
   (distinct (map m_id (members s)) \<longrightarrow>
      (\<forall>m \<in> set (members s). m_daysRemaining m = 1 \<longrightarrow>
         m\<lparr>m_daysRemaining := 0\<rparr> \<in> set (members (decrementAll s)) \<and>
         m_id m \<notin> m_id ` set (members (snd (expireAll (decrementAll s))))))"
proof (intro conjI allI impI ballI)
  show "length (members (decrementAll s)) = length (members s)"
    by (rule length_decrementAll)
  show "members (snd (expireAll s)) = filter (\<lambda>m. m_daysRemaining m > 0) (members s)"
    by (rule expireAll_members)
  show "fst (expireAll s) = length (filter (\<lambda>m. m_daysRemaining m \<le> 0) (members s))"
    by (rule expireAll_count)
  show "fst (expireAll s) + length (members (snd (expireAll s))) = length (members s)"
    by (rule expireAll_total)
qed (simp_all add: decrementAll_nth tick_removes_last_day)

theorem lifecycle_exact_witness:
  "(let m = \<lparr>m_id = 7, m_clientId = 1, m_email = Some ''john@x.com'', m_phone = None,
             m_firstName = Some ''John'', m_lastName = Some ''Doe'', m_dateAdded = 0,
             m_daysRemaining = 1, m_sourceFile = None, m_updatedAt = 0, m_status = ACTIVE\<rparr>;
        s = \<lparr>members = [m, m\<lparr>m_id := 8, m_daysRemaining := 5\<rparr>], nextId = 9, clients = []\<rparr>
    in distinct (map m_id (members s)) \<and> m \<in> set (members s) \<and> m_daysRemaining m = 1 \<and>
       members (decrementAll s) ! 0 = m\<lparr>m_daysRemaining := 0\<rparr> \<and>
       m\<lparr>m_daysRemaining := 0\<rparr> \<in> set (members (decrementAll s)) \<and>
       m_id m \<notin> m_id ` set (members (snd (expireAll (decrementAll s)))) \<and>
       fst (expireAll (decrementAll s)) = 1)"
proof -
  define m where "m = \<lparr>m_id = 7, m_clientId = 1, m_email = Some ''john@x.com'', m_phone = None,
             m_firstName = Some ''John'', m_lastName = Some ''Doe'', m_dateAdded = 0,
             m_daysRemaining = 1, m_sourceFile = None, m_updatedAt = 0, m_status = ACTIVE\<rparr>"
  define s where "s = \<lparr>members = [m, m\<lparr>m_id := 8, m_daysRemaining := 5\<rparr>], nextId = 9, clients = []\<rparr>"
  have h1: "distinct (map m_id (members s))" by (simp add: s_def m_def)
  have h2: "m \<in> set (members s)" by (simp add: s_def)
  have h3: "m_daysRemaining m = 1" by (simp add: m_def)
  have h4: "(0::nat) < length (members s)" by (simp add: s_def)
  have h5: "members s ! 0 = m" by (simp add: s_def)
  note L = lifecycle_exact [of s]
  from L h4 h5 h3 have a: "members (decrementAll s) ! 0 = m\<lparr>m_daysRemaining := 0\<rparr>"
    by auto
  from L h1 h2 h3 have b: "m\<lparr>m_daysRemaining := 0\<rparr> \<in> set (members (decrementAll s)) \<and>
       m_id m \<notin> m_id ` set (members (snd (expireAll (decrementAll s))))"
    by blast
  have c: "fst (expireAll (decrementAll s)) = 1"
    by (simp add: expireAll_def decrementAll_def s_def m_def)
  show ?thesis
    unfolding Let_def m_def [symmetric] s_def [symmetric]
    using h1 h2 h3 a b c by blast
qed

section \<open>Sync formatting properties\<close>

lemma formatAudienceData_filter:
  "formatAudienceData H ms =
     map (formatMember H) (filter (\<lambda>m. truthy (email m) \<or> truthy (phone m)) ms)"
  by (induction ms) auto

lemma formatMember_identifier:
  "truthy (email m) \<or> truthy (phone m) \<Longrightarrow>
     EMAIL (formatMember H m) \<noteq> None \<or> PHONE (formatMember H m) \<noteq> None"
  by (auto simp: formatMember_def truthy_def split: option.splits)

lemma formatMember_no_identifier:
  "\<not> truthy (email m) \<Longrightarrow> \<not> truthy (phone m) \<Longrightarrow>
     EMAIL (formatMember H m) = None \<and> PHONE (formatMember H m) = None"
  by (auto simp: formatMember_def truthy_def split: option.splits)

lemma concat_splitBatches: "concat (splitBatches i data) = drop i data"
proof (induction i data rule: splitBatches.induct)
  case (1 i data)
  show ?case
  proof (cases "i < length data")
    case True
    have "take BATCH_SIZE_meta (drop i data) @ drop (i + BATCH_SIZE_meta) data = drop i data"
      using append_take_drop_id [of BATCH_SIZE_meta "drop i data"]
      by (simp add: add.commute)
    with True "1.IH" show ?thesis
      by (subst splitBatches.simps) simp
  next
    case False
    then show ?thesis by (subst splitBatches.simps) simp
  qed
qed

lemma splitBatches_subset: "b \<in> set (splitBatches i data) \<Longrightarrow> set b \<subseteq> set data"
proof -
  assume "b \<in> set (splitBatches i data)"
  then have "set b \<subseteq> set (concat (splitBatches i data))" by auto
  also have "\<dots> \<subseteq> set data" by (simp add: concat_splitBatches set_drop_subset)
  finally show ?thesis .
qed

text \<open>
  Claim C7. The formatted output holds exactly one record for each input member that has
  an email or a phone, in input order, each carrying a hashed \<open>EMAIL\<close> or \<open>PHONE\<close>;
  members with neither are dropped, and every record of every batch cut from the output
  is the image of a member that has an identifier.
\<close>

theorem formatAudienceData_exclusion:
  "formatAudienceData H ms =
     map (formatMember H) (filter (\<lambda>m. truthy (email m) \<or> truthy (phone m)) ms) \<and>
   length (formatAudienceData H ms) =
     length (filter (\<lambda>m. truthy (email m) \<or> truthy (phone m)) ms) \<and>
   (\<forall>b \<in> set (splitBatches 0 (formatAudienceData H ms)). \<forall>r \<in> set b.
      (EMAIL r \<noteq> None \<or> PHONE r \<noteq> None) \<and>
      (\<exists>m \<in> set ms. (truthy (email m) \<or> truthy (phone m)) \<and> r = formatMember H m)) \<and>
   concat (splitBatches 0 (formatAudienceData H ms)) = formatAudienceData H ms"
proof (intro conjI ballI)
  show "formatAudienceData H ms =
     map (formatMember H) (filter (\<lambda>m. truthy (email m) \<or> truthy (phone m)) ms)"
    by (rule formatAudienceData_filter)
  show "length (formatAudienceData H ms) =
     length (filter (\<lambda>m. truthy (email m) \<or> truthy (phone m)) ms)"
    by (simp add: formatAudienceData_filter)
  show "concat (splitBatches 0 (formatAudienceData H ms)) = formatAudienceData H ms"
    by (simp add: concat_splitBatches)
next
  fix b r
  assume "b \<in> set (splitBatches 0 (formatAudienceData H ms))" and "r \<in> set b"
  then have "r \<in> set (formatAudienceData H ms)"
    using splitBatches_subset by blast
  then obtain m where m: "m \<in> set ms" "truthy (email m) \<or> truthy (phone m)"
    and r: "r = formatMember H m"
    by (auto simp: formatAudienceData_filter)
  from m r show "EMAIL r \<noteq> None \<or> PHONE r \<noteq> None"
    using formatMember_identifier by blast
  from m r show "\<exists>m \<in> set ms. (truthy (email m) \<or> truthy (phone m)) \<and> r = formatMember H m"
    by blast
qed

theorem formatAudienceData_exclusion_witness:
  "(let ms = [\<lparr>firstName = ''John'', lastName = ''Doe'', email = Some ''john@x.com'', phone = None\<rparr>,
              \<lparr>firstName = ''Ann'', lastName = ''Lee'', email = None, phone = None\<rparr>,
              \<lparr>firstName = ''Bob'', lastName = ''Ray'', email = None, phone = Some ''5551234567''\<rparr>]
    in length (formatAudienceData rev ms) = 2 \<and>
       splitBatches 0 (formatAudienceData rev ms) = [formatAudienceData rev ms] \<and>
       list_all (list_all (\<lambda>r. EMAIL r \<noteq> None \<or> PHONE r \<noteq> None))
         (splitBatches 0 (formatAudienceData rev ms)))"
proof -
  define ms where "ms = [\<lparr>firstName = ''John'', lastName = ''Doe'', email = Some ''john@x.com'', phone = None\<rparr>,
              \<lparr>firstName = ''Ann'', lastName = ''Lee'', email = None, phone = None\<rparr>,
              \<lparr>firstName = ''Bob'', lastName = ''Ray'', email = None, phone = Some ''5551234567''\<rparr>]"
  have len: "length (formatAudienceData rev ms) = 2"
    by (simp add: ms_def truthy_def)
  have one: "splitBatches 0 (formatAudienceData rev ms) = [formatAudienceData rev ms]"
    by (subst splitBatches.simps, subst splitBatches.simps) (simp add: len BATCH_SIZE_meta_def)
  from formatAudienceData_exclusion [of rev ms]
  have "\<forall>b \<in> set (splitBatches 0 (formatAudienceData rev ms)). \<forall>r \<in> set b.
          EMAIL r \<noteq> None \<or> PHONE r \<noteq> None"
    by blast
  then have "list_all (list_all (\<lambda>r. EMAIL r \<noteq> None \<or> PHONE r \<noteq> None))
         (splitBatches 0 (formatAudienceData rev ms))"
    by (simp add: list_all_iff)
  with len one show ?thesis
    unfolding Let_def ms_def [symmetric] by blast
qed

section \<open>Phone normalisation before hashing\<close>

lemma filter_isDigit_id: "\<forall>c \<in> set d. isDigit c \<Longrightarrow> filter isDigit d = d"
  by (induction d) auto

text \<open>
  Claim C10. The hashed \<open>PHONE\<close> is the digest of the digits of the phone, with the
  leading \<open>1\<close> removed when there are exactly 11 digits and the first is \<open>1\<close>. So an
  11-digit number with leading \<open>1\<close> hashes like its last ten digits, while
  \<open>normalizePhone\<close> of the CSV parser (what the store and the matcher hold) keeps all
  11 digits; in particular for \<open>15551234567\<close> and \<open>5551234567\<close>.
\<close>

theorem normalizeAndHashPhone_us_code:
  "normalizeAndHashPhone H p =
     H (if length (normalizePhone p) = 11 \<and> hd (normalizePhone p) = CHR ''1''
        then tl (normalizePhone p) else normalizePhone p) \<and>
   (length d = 10 \<and> (\<forall>c \<in> set d. isDigit c) \<longrightarrow>
      normalizeAndHashPhone H (CHR ''1'' # d) = normalizeAndHashPhone H d \<and>
      normalizeAndHashPhone H d = H d \<and>
      normalizePhone (CHR ''1'' # d) = CHR ''1'' # d \<and>
      normalizePhone (CHR ''1'' # d) \<noteq> normalizePhone d) \<and>
   normalizeAndHashPhone H ''15551234567'' = normalizeAndHashPhone H ''5551234567'' \<and>
   normalizeAndHashPhone H ''15551234567'' = H ''5551234567'' \<and>
   normalizePhone ''15551234567'' = ''15551234567''"
proof (intro conjI impI)
  show "normalizeAndHashPhone H p =
     H (if length (normalizePhone p) = 11 \<and> hd (normalizePhone p) = CHR ''1''
        then tl (normalizePhone p) else normalizePhone p)"
  proof (cases "filter isDigit p")
    case Nil
    then show ?thesis by (simp add: normalizeAndHashPhone_def normalizePhone_def)
  next
    case (Cons c cs)
    then show ?thesis
      by (simp add: normalizeAndHashPhone_def normalizePhone_def Let_def)
  qed
next
  assume a: "length d = 10 \<and> (\<forall>c \<in> set d. isDigit c)"
  then have f: "filter isDigit d = d" by (simp add: filter_isDigit_id)
  have one: "isDigit (CHR ''1'')" by (simp add: isDigit_def)
  from a f one show "normalizeAndHashPhone H (CHR ''1'' # d) = normalizeAndHashPhone H d"
    by (simp add: normalizeAndHashPhone_def)
  from a f show "normalizeAndHashPhone H d = H d"
    by (simp add: normalizeAndHashPhone_def)
  from f one show "normalizePhone (CHR ''1'' # d) = CHR ''1'' # d"
    by (simp add: normalizePhone_def)
  from a f one show "normalizePhone (CHR ''1'' # d) \<noteq> normalizePhone d"
    by (auto simp: normalizePhone_def)
next
  show "normalizeAndHashPhone H ''15551234567'' = normalizeAndHashPhone H ''5551234567''"
    by (simp add: normalizeAndHashPhone_def isDigit_def)
  show "normalizeAndHashPhone H ''15551234567'' = H ''5551234567''"
    by (simp add: normalizeAndHashPhone_def isDigit_def)
  show "normalizePhone ''15551234567'' = ''15551234567''"
    by (simp add: normalizePhone_def isDigit_def)
qed

theorem normalizeAndHashPhone_us_code_witness:
  "length ''2025551234'' = 10 \<and> list_all isDigit ''2025551234'' \<and>
   normalizeAndHashPhone rev ''12025551234'' = normalizeAndHashPhone rev ''2025551234'' \<and>
   normalizeAndHashPhone rev ''(202) 555-1234'' = rev ''2025551234'' \<and>
   normalizePhone ''12025551234'' \<noteq> normalizePhone ''2025551234''"
proof -
  have h: "length ''2025551234'' = 10 \<and> (\<forall>c \<in> set ''2025551234''. isDigit c)"
    by (simp add: isDigit_def)
  have n: "normalizePhone ''(202) 555-1234'' = ''2025551234''"
    by (simp add: normalizePhone_def isDigit_def)
  have g: "normalizeAndHashPhone rev ''(202) 555-1234'' = rev ''2025551234''"
    by (simp add: normalizeAndHashPhone_def isDigit_def)
  from normalizeAndHashPhone_us_code [of rev "''(202) 555-1234''" "''2025551234''"] h
  have "normalizeAndHashPhone rev (CHR ''1'' # ''2025551234'') = normalizeAndHashPhone rev ''2025551234'' \<and>
        normalizePhone (CHR ''1'' # ''2025551234'') \<noteq> normalizePhone ''2025551234''"
    by blast
  with h g show ?thesis by (simp add: list_all_iff)
qed

section \<open>Matching strategies\<close>

lemma findFirst_None_iff:
  "findFirst wh s = None \<longleftrightarrow> (\<forall>m \<in> set (members s). \<not> wh m)"
  by (auto simp: findFirst_def find_None_iff)

lemma findFirst_SomeD:
  "findFirst wh s = Some m \<Longrightarrow> m \<in> set (members s) \<and> wh m"
  by (auto simp: findFirst_def find_Some_iff)

lemma findFirst_exists:
  "m \<in> set (members s) \<Longrightarrow> wh m \<Longrightarrow> \<exists>m'. findFirst wh s = Some m'"
  using findFirst_None_iff [of wh s] by (cases "findFirst wh s") auto




lemma whereEmailName_iff:
  "whereEmailName cid e fn ln m \<longleftrightarrow>
     whereEmail cid e m \<and> equalsInsensitive (m_firstName m) fn \<and> equalsInsensitive (m_lastName m) ln"
  by (auto simp: whereEmailName_def whereEmail_def)

lemma wherePhoneName_iff:
  "wherePhoneName cid p fn ln m \<longleftrightarrow>
     wherePhone cid p m \<and> equalsInsensitive (m_firstName m) fn \<and> equalsInsensitive (m_lastName m) ln"
  by (auto simp: wherePhoneName_def wherePhone_def)



lemmas ex_simps = ex_store_def ex_row_def findFirst_def whereEmailName_def wherePhoneName_def
  whereEmail_def wherePhone_def equalsInsensitive_def equalsExact_def toLowerCase_def toLowerChar_def



lemma dedup_email_name:
  assumes "email c = Some e" "e \<noteq> []" "findFirst (whereEmailName cid e (firstName c) (lastName c)) s = Some m"
  shows "deduplicateRecord c cid s =
           \<lparr>isNew = False, audienceMemberId = Some (m_id m), matchedOn = Some ''email+name''\<rparr>"
  using assms by (simp add: deduplicateRecord_def)

lemma findMatching_email_name:
  assumes "email c = Some e" "e \<noteq> []" "firstName c \<noteq> []" "lastName c \<noteq> []"
    "findFirst (whereEmailName cid e (firstName c) (lastName c)) s = Some m"
  shows "findMatchingRecord c cid s = Some (m, EmailName)"
  using assms by (simp add: findMatchingRecord_def)

text \<open>
  Claim C2, as amended. A contact with an email+name row and a different phone+name row
  resolves to the first email+name row with the tag \<open>email+name\<close>: always in bulk file
  ingestion, and in the match-append matcher when the contact's first and last name are
  both non-empty.
\<close>

theorem first_match_wins:
  assumes "email c = Some e" and "e \<noteq> []"
    and "m1 \<in> set (members s)" and "whereEmailName cid e (firstName c) (lastName c) m1"
    and "phone c = Some p" and "p \<noteq> []"
    and "m2 \<in> set (members s)" and "wherePhoneName cid p (firstName c) (lastName c) m2"
    and "m1 \<noteq> m2"
  shows "\<exists>m. findFirst (whereEmailName cid e (firstName c) (lastName c)) s = Some m \<and>
             m \<in> set (members s) \<and> whereEmailName cid e (firstName c) (lastName c) m \<and>
             deduplicateRecord c cid s =
               \<lparr>isNew = False, audienceMemberId = Some (m_id m), matchedOn = Some ''email+name''\<rparr> \<and>
             (firstName c \<noteq> [] \<and> lastName c \<noteq> [] \<longrightarrow>
                findMatchingRecord c cid s = Some (m, EmailName))"
proof -
  from assms(3,4) obtain m
    where m: "findFirst (whereEmailName cid e (firstName c) (lastName c)) s = Some m"
    using findFirst_exists by blast
  from m have "m \<in> set (members s) \<and> whereEmailName cid e (firstName c) (lastName c) m"
    by (rule findFirst_SomeD)
  moreover from assms(1,2) m have "deduplicateRecord c cid s =
      \<lparr>isNew = False, audienceMemberId = Some (m_id m), matchedOn = Some ''email+name''\<rparr>"
    by (rule dedup_email_name)
  moreover have "firstName c \<noteq> [] \<and> lastName c \<noteq> [] \<longrightarrow>
      findMatchingRecord c cid s = Some (m, EmailName)"
    using assms(1,2) m by (simp add: findMatching_email_name)
  ultimately show ?thesis using m by blast
qed

theorem first_match_wins_witness:
  "deduplicateRecord
     \<lparr>firstName = ''John'', lastName = ''Doe'', email = Some ''john@x.com'',
      phone = Some ''5551234567''\<rparr> 1
     (ex_store [ex_row 1 None (Some ''5551234567'') ''John'' ''Doe'' ACTIVE,
                ex_row 2 (Some ''JOHN@X.COM'') None ''john'' ''doe'' ACTIVE])
     = \<lparr>isNew = False, audienceMemberId = Some 2, matchedOn = Some ''email+name''\<rparr> \<and>
   findMatchingRecord
     \<lparr>firstName = ''John'', lastName = ''Doe'', email = Some ''john@x.com'',
      phone = Some ''5551234567''\<rparr> 1
     (ex_store [ex_row 1 None (Some ''5551234567'') ''John'' ''Doe'' ACTIVE,
                ex_row 2 (Some ''JOHN@X.COM'') None ''john'' ''doe'' ACTIVE])
     = Some (ex_row 2 (Some ''JOHN@X.COM'') None ''john'' ''doe'' ACTIVE, EmailName)"
proof -
  let ?c = "\<lparr>firstName = ''John'', lastName = ''Doe'', email = Some ''john@x.com'',
      phone = Some ''5551234567''\<rparr>"
  let ?m2 = "ex_row 1 None (Some ''5551234567'') ''John'' ''Doe'' ACTIVE"
  let ?m1 = "ex_row 2 (Some ''JOHN@X.COM'') None ''john'' ''doe'' ACTIVE"
  let ?s = "ex_store [?m2, ?m1]"
  have f: "findFirst (whereEmailName 1 ''john@x.com'' (firstName ?c) (lastName ?c)) ?s = Some ?m1"
    by (simp add: ex_simps)
  have "\<exists>m. findFirst (whereEmailName 1 ''john@x.com'' (firstName ?c) (lastName ?c)) ?s = Some m \<and>
             m \<in> set (members ?s) \<and> whereEmailName 1 ''john@x.com'' (firstName ?c) (lastName ?c) m \<and>
             deduplicateRecord ?c 1 ?s =
               \<lparr>isNew = False, audienceMemberId = Some (m_id m), matchedOn = Some ''email+name''\<rparr> \<and>
             (firstName ?c \<noteq> [] \<and> lastName ?c \<noteq> [] \<longrightarrow>
                findMatchingRecord ?c 1 ?s = Some (m, EmailName))"
    by (rule first_match_wins [of ?c "''john@x.com''" ?m1 ?s 1 "''5551234567''" ?m2])
       (simp_all add: ex_simps)
  with f show ?thesis by (auto simp: ex_row_def)
qed

theorem first_match_wins_counterexample:
  "whereEmailName 1 ''cher@x.com'' ''Cher'' []
     (ex_row 2 (Some ''cher@x.com'') None ''Cher'' [] ACTIVE) \<and>
   wherePhoneName 1 ''5550000000'' ''Cher'' []
     (ex_row 3 None (Some ''5550000000'') ''Cher'' [] ACTIVE) \<and>
   findMatchingRecord
     \<lparr>firstName = ''Cher'', lastName = [], email = Some ''cher@x.com'',
      phone = Some ''5550000000''\<rparr> 1
     (ex_store [ex_row 1 (Some ''cher@x.com'') None ''Sonny'' ''Bono'' ACTIVE,
                ex_row 2 (Some ''cher@x.com'') None ''Cher'' [] ACTIVE,
                ex_row 3 None (Some ''5550000000'') ''Cher'' [] ACTIVE])
     = Some (ex_row 1 (Some ''cher@x.com'') None ''Sonny'' ''Bono'' ACTIVE, EmailOnly)"
  by (simp add: findMatchingRecord_def ex_simps)

section \<open>Status and re-enrollment\<close>

lemma equalsInsensitive_None: "\<not> equalsInsensitive None v"
  by (simp add: equalsInsensitive_def)

lemma equalsExact_truthy: "equalsExact col p \<Longrightarrow> p \<noteq> [] \<Longrightarrow> truthy col"
  by (auto simp: equalsExact_def truthy_def split: option.splits)

lemma whereEmail_stored:
  "whereEmail cid x m \<Longrightarrow> m_clientId m = cid \<and> (\<exists>e. m_email m = Some e \<and> equalsInsensitive (Some e) x)"
  by (cases "m_email m") (auto simp: whereEmail_def equalsInsensitive_None)

lemma wherePhone_stored:
  "wherePhone cid p m \<Longrightarrow> m_clientId m = cid \<and> m_phone m = Some p"
  by (auto simp: wherePhone_def equalsExact_def split: option.splits)

lemma findMatchingRecord_requires:
  assumes "findMatchingRecord c cid s = Some (m, b)"
  shows "m \<in> set (members s) \<and> m_clientId m = cid \<and> b \<noteq> NoStrategy \<and>
         (b = EmailName \<or> b = EmailOnly \<longrightarrow>
            (\<exists>x e. email c = Some x \<and> x \<noteq> [] \<and> m_email m = Some e \<and>
                   equalsInsensitive (Some e) x)) \<and>
         (b = PhoneName \<or> b = PhoneOnly \<longrightarrow>
            (\<exists>p. phone c = Some p \<and> p \<noteq> [] \<and> m_phone m = Some p))"
  using assms
  by (auto simp: findMatchingRecord_def whereEmailName_iff wherePhoneName_iff
        split: option.splits if_splits
        dest!: findFirst_SomeD dest: whereEmail_stored wherePhone_stored)


lemma findMatchingRecord_incoming:
  assumes "findMatchingRecord c cid s = Some (m, b)"
  shows "truthy (email c) \<or> truthy (phone c)"
  using findMatchingRecord_requires [OF assms]
  by (cases b) (auto simp: truthy_def)

lemma update_present:
  "m \<in> set (members s) \<Longrightarrow>
     update (m_id m) f s =
       Inr (s\<lparr>members := map (\<lambda>x. if m_id x = m_id m then f x else x) (members s)\<rparr>)"
  by (simp add: update_def)

lemma distinct_id_eq:
  "distinct (map m_id ms) \<Longrightarrow> m \<in> set ms \<Longrightarrow> x \<in> set ms \<Longrightarrow> m_id x = m_id m \<Longrightarrow> x = m"
  by (meson distinct_map inj_onD)

lemma updateData_keeps_status:
  "truthy (m_email matched) \<or> truthy (m_phone matched) \<Longrightarrow>
     m_status (updateData c today matched m) = m_status m \<and>
     m_daysRemaining (updateData c today matched m) = m_daysRemaining m \<and>
     m_dateAdded (updateData c today matched m) = m_dateAdded m"
  by (simp add: updateData_def Let_def)

lemma updateData_email:
  "m_email (updateData c today m m) = (if truthy (email c) then email c else m_email m)"
  by (simp add: updateData_def Let_def)

lemma updateData_phone:
  "m_phone (updateData c today m m) = (if truthy (phone c) then phone c else m_phone m)"
  by (simp add: updateData_def Let_def)

lemma updateData_status:
  "m_status (updateData c today m m) =
     (if \<not> (truthy (m_email m) \<or> truthy (m_phone m)) \<and> (truthy (email c) \<or> truthy (phone c))
      then ACTIVE else m_status m)"
  by (simp add: updateData_def Let_def)

lemma updateData_invariant:
  assumes inv: "statusInvariant m" "unpadded (m_email m)" "unpadded (m_phone m)"
    and now: "truthy (email c) \<or> truthy (phone c)"
    and c: "unpadded (email c)" "unpadded (phone c)"
  shows "statusInvariant (updateData c today m m) \<and>
         unpadded (m_email (updateData c today m m)) \<and>
         unpadded (m_phone (updateData c today m m))"
proof -
  have e: "unpadded (m_email (updateData c today m m))"
    using inv(2) c(1) by (simp add: updateData_email)
  have p: "unpadded (m_phone (updateData c today m m))"
    using inv(3) c(2) by (simp add: updateData_phone)
  have "statusInvariant (updateData c today m m)"
  proof (cases "truthy (m_email m) \<or> truthy (m_phone m)")
    case True
    with inv have act: "m_status m = ACTIVE"
      by (auto simp: statusInvariant_def unpadded_def)
    from True inv(2,3) c
    have "nonBlank (m_email (updateData c today m m)) \<or> nonBlank (m_phone (updateData c today m m))"
      by (auto simp: updateData_email updateData_phone unpadded_def)
    with act True show ?thesis by (simp add: statusInvariant_def updateData_status)
  next
    case False
    from now c
    have "nonBlank (m_email (updateData c today m m)) \<or> nonBlank (m_phone (updateData c today m m))"
      by (auto simp: updateData_email updateData_phone unpadded_def)
    with False now show ?thesis by (simp add: statusInvariant_def updateData_status)
  qed
  with e p show ?thesis by simp
qed

lemma getRecordStatus_invariant:
  "getRecordStatus e p = ACTIVE \<longleftrightarrow> nonBlank e \<or> nonBlank p"
  by (simp add: getRecordStatus_def)

lemma processRecordWithMatch_created:
  assumes "findMatchingRecord c (o_clientId opts) s = None"
    and "o_clientId opts \<in> fst ` set (clients s)"
  shows "\<exists>m. processRecordWithMatch c opts today s =
           Inr (\<lparr>action = Created, recordId = nextId s, matchedBy = None, fieldsUpdated = None\<rparr>,
                s\<lparr>members := members s @ [m], nextId := Suc (nextId s)\<rparr>) \<and>
           m_id m = nextId s \<and> m_clientId m = o_clientId opts \<and>
           m_email m = email c \<and> m_phone m = phone c \<and>
           m_firstName m = Some (firstName c) \<and> m_lastName m = Some (lastName c) \<and>
           m_status m = getRecordStatus (email c) (phone c) \<and>
           m_daysRemaining m = DAYS_REMAINING_DEFAULT \<and> m_dateAdded m = today"
proof -
  let ?m = "\<lparr>m_id = nextId s, m_clientId = o_clientId opts, m_email = email c,
             m_phone = phone c, m_firstName = Some (firstName c),
             m_lastName = Some (lastName c), m_dateAdded = today,
             m_daysRemaining = DAYS_REMAINING_DEFAULT,
             m_sourceFile = orNull (o_sourceFile opts), m_updatedAt = today,
             m_status = getRecordStatus (email c) (phone c)\<rparr>"
  from assms have "processRecordWithMatch c opts today s =
           Inr (\<lparr>action = Created, recordId = nextId s, matchedBy = None, fieldsUpdated = None\<rparr>,
                s\<lparr>members := members s @ [?m], nextId := Suc (nextId s)\<rparr>)"
    by (simp add: processRecordWithMatch_def create_def Let_def)
  then show ?thesis by (intro exI [of _ ?m]) simp
qed

lemma processRecordWithMatch_rejected:
  assumes "findMatchingRecord c (o_clientId opts) s = None"
    and "o_clientId opts \<notin> fst ` set (clients s)"
  shows "processRecordWithMatch c opts today s = Inl foreignKeyViolation"
  using assms by (simp add: processRecordWithMatch_def)

lemma processRecordWithMatch_matched:
  assumes f: "findMatchingRecord c (o_clientId opts) s = Some (m, b)"
  shows "processRecordWithMatch c opts today s =
     (if o_mode opts = Append
      then Inr (\<lparr>action = Skipped, recordId = m_id m, matchedBy = Some b, fieldsUpdated = None\<rparr>, s)
      else if fieldsUpdatedOf c m \<noteq> []
      then Inr (\<lparr>action = Updated, recordId = m_id m, matchedBy = Some b,
                 fieldsUpdated = Some (fieldsUpdatedOf c m)\<rparr>,
                s\<lparr>members := map (\<lambda>x. if m_id x = m_id m then updateData c today m x else x)
                                 (members s)\<rparr>)
      else Inr (\<lparr>action = Skipped, recordId = m_id m, matchedBy = Some b,
                 fieldsUpdated = Some []\<rparr>, s))"
proof -
  from f have "m \<in> set (members s)" using findMatchingRecord_requires by blast
  then have "update (m_id m) (updateData c today m) s =
       Inr (s\<lparr>members := map (\<lambda>x. if m_id x = m_id m then updateData c today m x else x) (members s)\<rparr>)"
    by (rule update_present)
  with f show ?thesis by (simp add: processRecordWithMatch_def)
qed

text \<open>The match-append module keeps the invariant: whatever \<^verbatim>\<open>processRecordWithMatch\<close>
  returns, every row of the resulting store has \<open>status = ACTIVE\<close> iff its email or phone
  is non-blank, and a created row has the status of its contact's identifiers.\<close>

lemma match_append_keeps_invariant:
  assumes d: "distinct (map m_id (members s))"
    and inv: "\<forall>m \<in> set (members s).
                statusInvariant m \<and> unpadded (m_email m) \<and> unpadded (m_phone m)"
    and c: "unpadded (email c)" "unpadded (phone c)"
    and run: "processRecordWithMatch c opts today s = Inr (r, s')"
  shows "(\<forall>m \<in> set (members s').
              statusInvariant m \<and> unpadded (m_email m) \<and> unpadded (m_phone m)) \<and>
         (action r = Created \<longrightarrow>
            (\<exists>m. members s' = members s @ [m] \<and> m_email m = email c \<and> m_phone m = phone c \<and>
                 m_status m = getRecordStatus (email c) (phone c)))"
proof (cases "findMatchingRecord c (o_clientId opts) s")
  case None
  with run have cl: "o_clientId opts \<in> fst ` set (clients s)"
    by (auto simp: processRecordWithMatch_def split: if_splits)
  from processRecordWithMatch_created [OF None cl, of today] run
  obtain m where m: "r = \<lparr>action = Created, recordId = nextId s, matchedBy = None, fieldsUpdated = None\<rparr>"
      "s' = s\<lparr>members := members s @ [m], nextId := Suc (nextId s)\<rparr>"
      "m_email m = email c" "m_phone m = phone c"
      "m_status m = getRecordStatus (email c) (phone c)"
    by auto
  from m(3-5) c have "statusInvariant m \<and> unpadded (m_email m) \<and> unpadded (m_phone m)"
    by (simp add: statusInvariant_def getRecordStatus_invariant)
  with inv m show ?thesis by auto
next
  case (Some mb)
  then obtain m b where f: "findMatchingRecord c (o_clientId opts) s = Some (m, b)"
    by (cases mb) auto
  from f have mem: "m \<in> set (members s)" using findMatchingRecord_requires by blast
  from f have now: "truthy (email c) \<or> truthy (phone c)" by (rule findMatchingRecord_incoming)
  from inv mem have im: "statusInvariant m" "unpadded (m_email m)" "unpadded (m_phone m)"
    by auto
  have upd: "\<forall>x \<in> set (map (\<lambda>x. if m_id x = m_id m then updateData c today m x else x)
                          (members s)).
               statusInvariant x \<and> unpadded (m_email x) \<and> unpadded (m_phone x)"
  proof
    fix x assume "x \<in> set (map (\<lambda>x. if m_id x = m_id m then updateData c today m x else x) (members s))"
    then obtain y where y: "y \<in> set (members s)"
      and x: "x = (if m_id y = m_id m then updateData c today m y else y)"
      by auto
    show "statusInvariant x \<and> unpadded (m_email x) \<and> unpadded (m_phone x)"
    proof (cases "m_id y = m_id m")
      case True
      with d mem y have "y = m" by (rule_tac distinct_id_eq) auto
      with x True show ?thesis
        using updateData_invariant [OF im now c] by simp
    next
      case False
      with x y inv show ?thesis by simp
    qed
  qed
  from run inv upd show ?thesis
    unfolding processRecordWithMatch_matched [OF f]
    by (auto split: if_splits)
qed

lemma bulk_overwrite_keeps_status: "m_status (overwrite c today m) = m_status m"
  by (simp add: overwrite_def)

text \<open>
  Claim C6, evaluated on the code. Bulk file ingestion never derives a status: the row
  \<^verbatim>\<open>processRecords\<close> creates for a contact that matches nothing carries the contact's
  email and phone and the column default \<open>d\<close>, whatever the identifiers are, so it
  satisfies the invariant only when \<open>d\<close> happens to be the status of those identifiers;
  and an overwritten row keeps the status it had. The sibling create of the match-append
  module derives the status (lemma \<open>match_append_keeps_invariant\<close>).
\<close>

theorem bulk_create_status_not_derived:
  assumes "processRecords d [c] cid f today s = Inr (p, s')"
    and "isNew (deduplicateRecord c cid s)"
  shows "\<exists>m. members s' = members s @ [m] \<and> m_email m = email c \<and> m_phone m = phone c \<and>
             m_status m = d \<and>
             (statusInvariant m \<longleftrightarrow> d = getRecordStatus (email c) (phone c))"
proof -
  let ?m = "(newMember d c cid f today)\<lparr>m_id := nextId s\<rparr>"
  from assms have "members s' = members s @ [?m]"
    by (auto simp: processRecords_def BATCH_SIZE_def create_def Let_def split: if_splits)
  moreover have "m_email ?m = email c" "m_phone ?m = phone c" "m_status ?m = d"
    by (simp_all add: newMember_def)
  moreover have "statusInvariant ?m \<longleftrightarrow> d = getRecordStatus (email c) (phone c)"
    by (cases d) (auto simp: statusInvariant_def newMember_def getRecordStatus_def)
  ultimately show ?thesis by blast
qed

theorem bulk_create_status_not_derived_witness:
  "processRecords ACTIVE [\<lparr>firstName = ''Ann'', lastName = ''Lee'', email = None, phone = None\<rparr>]
      1 None 5 (ex_store [])
     = Inr (\<lparr>newRecords = 1, duplicates = 0, updated = 0, errors = []\<rparr>,
            ex_store [(ex_row 1 None None ''Ann'' ''Lee'' ACTIVE)
                        \<lparr>m_dateAdded := 5, m_updatedAt := 5\<rparr>]) \<and>
   getRecordStatus None None = NO_IDENTIFIER \<and>
   \<not> statusInvariant ((ex_row 1 None None ''Ann'' ''Lee'' ACTIVE)
                        \<lparr>m_dateAdded := 5, m_updatedAt := 5\<rparr>) \<and>
   processRecords NO_IDENTIFIER
      [\<lparr>firstName = ''John'', lastName = ''Doe'', email = Some ''john@x.com'', phone = None\<rparr>]
      1 None 5 (ex_store [])
     = Inr (\<lparr>newRecords = 1, duplicates = 0, updated = 0, errors = []\<rparr>,
            ex_store [(ex_row 1 (Some ''john@x.com'') None ''John'' ''Doe'' NO_IDENTIFIER)
                        \<lparr>m_dateAdded := 5, m_updatedAt := 5\<rparr>]) \<and>
   getRecordStatus (Some ''john@x.com'') None = ACTIVE \<and>
   \<not> statusInvariant ((ex_row 1 (Some ''john@x.com'') None ''John'' ''Doe'' NO_IDENTIFIER)
                        \<lparr>m_dateAdded := 5, m_updatedAt := 5\<rparr>)"
proof -
  let ?c = "\<lparr>firstName = ''Ann'', lastName = ''Lee'', email = None, phone = None\<rparr>"
  let ?m = "(ex_row 1 None None ''Ann'' ''Lee'' ACTIVE)\<lparr>m_dateAdded := 5, m_updatedAt := 5\<rparr>"
  let ?j = "\<lparr>firstName = ''John'', lastName = ''Doe'', email = Some ''john@x.com'', phone = None\<rparr>"
  let ?k = "(ex_row 1 (Some ''john@x.com'') None ''John'' ''Doe'' NO_IDENTIFIER)
              \<lparr>m_dateAdded := 5, m_updatedAt := 5\<rparr>"
  have run: "processRecords ACTIVE [?c] 1 None 5 (ex_store []) =
      Inr (\<lparr>newRecords = 1, duplicates = 0, updated = 0, errors = []\<rparr>, ex_store [?m])"
    by (simp add: processRecords_def BATCH_SIZE_def deduplicateRecord_def
          ex_store_def ex_row_def create_def newMember_def orNull_def truthy_def
          DAYS_REMAINING_DEFAULT_def Let_def)
  have new: "isNew (deduplicateRecord ?c 1 (ex_store []))"
    by (simp add: deduplicateRecord_def)
  have g: "getRecordStatus None None = NO_IDENTIFIER"
    by (simp add: getRecordStatus_def nonBlank_def)
  from bulk_create_status_not_derived [OF run new] g
  have v: "\<not> statusInvariant ?m" by (auto simp: ex_store_def)
  have run': "processRecords NO_IDENTIFIER [?j] 1 None 5 (ex_store []) =
      Inr (\<lparr>newRecords = 1, duplicates = 0, updated = 0, errors = []\<rparr>, ex_store [?k])"
    by (simp add: processRecords_def BATCH_SIZE_def deduplicateRecord_def findFirst_def
          ex_store_def ex_row_def create_def newMember_def orNull_def truthy_def
          DAYS_REMAINING_DEFAULT_def Let_def)
  have new': "isNew (deduplicateRecord ?j 1 (ex_store []))"
    by (simp add: deduplicateRecord_def findFirst_def ex_store_def)
  have g': "getRecordStatus (Some ''john@x.com'') None = ACTIVE"
    by (simp add: getRecordStatus_def nonBlank_def trim_def isSpace_def)
  from bulk_create_status_not_derived [OF run' new'] g'
  have v': "\<not> statusInvariant ?k" by (auto simp: ex_store_def)
  from run g v run' g' v' show ?thesis by simp
qed






section \<open>Upload, retry and abort\<close>

lemma attemptLoop_closed:
  "attemptLoop remote b 1 None =
     (case remote b 1 of
        None \<Rightarrow> (None, True, [UploadBatch b 1])
      | Some e1 \<Rightarrow>
          if \<not> isRateLimitError e1 then (Some (asError e1), False, [UploadBatch b 1])
          else (case remote b 2 of
                  None \<Rightarrow> (None, True, [UploadBatch b 1, Sleep 1000, UploadBatch b 2])
                | Some e2 \<Rightarrow>
                    if \<not> isRateLimitError e2
                    then (Some (asError e2), False, [UploadBatch b 1, Sleep 1000, UploadBatch b 2])
                    else (case remote b 3 of
                            None \<Rightarrow> (None, True, [UploadBatch b 1, Sleep 1000, UploadBatch b 2,
                                                   Sleep 2000, UploadBatch b 3])
                          | Some e3 \<Rightarrow>
                              (Some (asError e3), False,
                               [UploadBatch b 1, Sleep 1000, UploadBatch b 2, Sleep 2000,
                                UploadBatch b 3]))))"
proof -
  have four: "\<And>e. attemptLoop remote b 4 e = (e, False, [])"
    by (subst attemptLoop.simps) (simp add: MAX_RETRIES_def)
  have three: "\<And>e. attemptLoop remote b 3 e =
     (case remote b 3 of None \<Rightarrow> (None, True, [UploadBatch b 3])
      | Some e3 \<Rightarrow> (Some (asError e3), False, [UploadBatch b 3]))"
    by (subst attemptLoop.simps)
       (auto simp: MAX_RETRIES_def four asError_def Let_def split: option.splits)
  have two: "\<And>e. attemptLoop remote b 2 e =
     (case remote b 2 of None \<Rightarrow> (None, True, [UploadBatch b 2])
      | Some e2 \<Rightarrow>
          if \<not> isRateLimitError e2 then (Some (asError e2), False, [UploadBatch b 2])
          else (case remote b 3 of
                  None \<Rightarrow> (None, True, [UploadBatch b 2, Sleep 2000, UploadBatch b 3])
                | Some e3 \<Rightarrow> (Some (asError e3), False,
                                [UploadBatch b 2, Sleep 2000, UploadBatch b 3])))"
    by (subst attemptLoop.simps)
       (auto simp: MAX_RETRIES_def INITIAL_BACKOFF_MS_def three asError_def Let_def
             split: option.splits)
  have s2: "Suc (Suc 0) = 2" by simp
  show ?thesis
    by (subst attemptLoop.simps)
       (auto simp: MAX_RETRIES_def INITIAL_BACKOFF_MS_def s2 two asError_def Let_def
             split: option.splits)
qed

lemma uploads_append: "uploads (xs @ ys) = uploads xs @ uploads ys"
  by (induction xs rule: uploads.induct) auto

lemma attemptLoop_cases:
  assumes "attemptLoop remote b 1 None = (e, up, effs)"
  shows "up = (e = None) \<and>
         uploads effs \<in> {[(b, 1)], [(b, 1), (b, 2)], [(b, 1), (b, 2), (b, 3)]}"
  using assms unfolding attemptLoop_closed
  by (auto split: option.splits if_splits)

lemma attemptLoop_uploads_props:
  assumes "attemptLoop remote b 1 None = (e, up, effs)"
  shows "sorted_wrt before (uploads effs)"
    and "\<forall>p \<in> set (uploads effs). fst p = b \<and> 1 \<le> snd p \<and> snd p \<le> 3"
    and "length (uploads effs) \<le> 3"
  using attemptLoop_cases [OF assms] by (auto simp: before_def)

lemma uploadBatches_bounds:
  "\<forall>p \<in> set (uploads (effects (uploadBatches remote i batches tot))).
     i < fst p \<and> fst p \<le> i + length batches \<and> 1 \<le> snd p \<and> snd p \<le> 3"
proof (induction batches arbitrary: i tot)
  case Nil
  then show ?case by simp
next
  case (Cons batch rest)
  obtain e up effs where a: "attemptLoop remote (i + 1) 1 None = (e, up, effs)"
    by (cases "attemptLoop remote (i + 1) 1 None") auto
  note p = attemptLoop_uploads_props(2) [OF a]
  show ?case
  proof (cases e)
    case None
    with a p Cons.IH [of "i + 1"] show ?thesis
      by (fastforce simp: Let_def uploads_append)
  next
    case (Some err)
    with a p show ?thesis by (fastforce simp: Let_def)
  qed
qed

lemma uploadBatches_sorted:
  "sorted_wrt before (uploads (effects (uploadBatches remote i batches tot)))"
proof (induction batches arbitrary: i tot)
  case Nil
  then show ?case by simp
next
  case (Cons batch rest)
  obtain e up effs where a: "attemptLoop remote (i + 1) 1 None = (e, up, effs)"
    by (cases "attemptLoop remote (i + 1) 1 None") auto
  note p = attemptLoop_uploads_props [OF a]
  show ?case
  proof (cases e)
    case None
    let ?r = "uploadBatches remote (i + 1) rest (if up then tot + length batch else tot)"
    have later: "\<forall>q \<in> set (uploads (effects ?r)). i + 1 < fst q"
      using uploadBatches_bounds [of remote "i + 1" rest] by auto
    have "\<forall>x \<in> set (uploads effs). \<forall>y \<in> set (uploads (effects ?r)). before x y"
      using p(2) later by (auto simp: before_def)
    with a None p(1) Cons.IH [of "i + 1"] show ?thesis
      by (simp add: Let_def uploads_append sorted_wrt_append)
  next
    case (Some err)
    with a p(1) show ?thesis by (simp add: Let_def)
  qed
qed

lemma uploadBatches_attempts:
  "length (filter (\<lambda>p. fst p = b) (uploads (effects (uploadBatches remote i batches tot)))) \<le> 3"
proof (induction batches arbitrary: i tot)
  case Nil
  then show ?case by simp
next
  case (Cons batch rest)
  obtain e up effs where a: "attemptLoop remote (i + 1) 1 None = (e, up, effs)"
    by (cases "attemptLoop remote (i + 1) 1 None") auto
  note p = attemptLoop_uploads_props [OF a]
  have here: "length (filter (\<lambda>p. fst p = b) (uploads effs)) \<le> 3"
    using p(3) length_filter_le [of "\<lambda>p. fst p = b" "uploads effs"] by linarith
  show ?case
  proof (cases e)
    case None
    let ?r = "uploadBatches remote (i + 1) rest (if up then tot + length batch else tot)"
    have later: "\<forall>q \<in> set (uploads (effects ?r)). i + 1 < fst q"
      using uploadBatches_bounds [of remote "i + 1" rest] by auto
    show ?thesis
    proof (cases "b = i + 1")
      case True
      with later have "filter (\<lambda>p. fst p = b) (uploads (effects ?r)) = []"
        unfolding filter_empty_conv by fastforce
      with a None here show ?thesis
        by (simp add: Let_def uploads_append)
    next
      case False
      with p(2) have "filter (\<lambda>p. fst p = b) (uploads effs) = []"
        by (auto simp: filter_empty_conv)
      with a None Cons.IH [of "i + 1"] show ?thesis
        by (simp add: Let_def uploads_append)
    qed
  next
    case (Some err)
    with a here show ?thesis by (simp add: Let_def)
  qed
qed

lemma batchFailure_uploaded:
  "attemptLoop remote b 1 None = (e, up, effs) \<Longrightarrow> batchFailure remote b = e \<and> up = (e = None)"
  using attemptLoop_cases by (simp add: batchFailure_def)

lemma uploadBatches_all_ok:
  assumes "\<forall>j < length batches. batchFailure remote (i + j + 1) = None"
  shows "outcome (uploadBatches remote i batches tot) =
           Inr \<lparr>success = True, recordsUploaded = tot + length (concat batches)\<rparr> \<and>
         received (uploadBatches remote i batches tot) = concat batches"
  using assms
proof (induction batches arbitrary: i tot)
  case Nil
  then show ?case by simp
next
  case (Cons batch rest)
  obtain e up effs where a: "attemptLoop remote (i + 1) 1 None = (e, up, effs)"
    by (cases "attemptLoop remote (i + 1) 1 None") auto
  from Cons.prems have "batchFailure remote (i + 0 + 1) = None" by blast
  with batchFailure_uploaded [OF a] have e: "e = None" and up: "up" by auto
  have "\<forall>j < length rest. batchFailure remote (i + 1 + j + 1) = None"
  proof (intro allI impI)
    fix j assume "j < length rest"
    then have "Suc j < length (batch # rest)" by simp
    with Cons.prems have "batchFailure remote (i + Suc j + 1) = None" by blast
    then show "batchFailure remote (i + 1 + j + 1) = None" by simp
  qed
  from Cons.IH [OF this, of "tot + length batch"] a e up show ?case
    by (simp add: Let_def)
qed

lemma uploadBatches_first_failure:
  assumes "j < length batches" and "batchFailure remote (i + j + 1) = Some err"
    and "\<forall>j' < j. batchFailure remote (i + j' + 1) = None"
  shows "outcome (uploadBatches remote i batches tot) = Inl (failureMessage (i + j + 1) err) \<and>
         received (uploadBatches remote i batches tot) = concat (take j batches) \<and>
         (\<forall>p \<in> set (uploads (effects (uploadBatches remote i batches tot))). fst p \<le> i + j + 1)"
  using assms
proof (induction batches arbitrary: i j tot)
  case Nil
  then show ?case by simp
next
  case (Cons batch rest)
  obtain e up effs where a: "attemptLoop remote (i + 1) 1 None = (e, up, effs)"
    by (cases "attemptLoop remote (i + 1) 1 None") auto
  note bf = batchFailure_uploaded [OF a]
  note p = attemptLoop_uploads_props(2) [OF a]
  show ?case
  proof (cases j)
    case 0
    with Cons.prems(2) bf have "e = Some err" "\<not> up" by auto
    with a 0 p show ?thesis
      by (auto simp: Let_def failureMessage_def)
  next
    case (Suc j0)
    with Cons.prems(3) have "batchFailure remote (i + 0 + 1) = None" by blast
    with bf have e: "e = None" and up: "up" by auto
    from Suc Cons.prems(1) have 1: "j0 < length rest" by simp
    from Suc Cons.prems(2) have 2: "batchFailure remote (i + 1 + j0 + 1) = Some err" by simp
    have 3: "\<forall>j' < j0. batchFailure remote (i + 1 + j' + 1) = None"
    proof (intro allI impI)
      fix j' assume "j' < j0"
      then have "Suc j' < j" using Suc by simp
      with Cons.prems(3) have "batchFailure remote (i + Suc j' + 1) = None" by blast
      then show "batchFailure remote (i + 1 + j' + 1) = None" by simp
    qed
    from Cons.IH [OF 1 2 3, of "tot + length batch"] a e up Suc p show ?thesis
      by (fastforce simp: Let_def uploads_append)
  qed
qed

lemma splitBatches_lengths:
  "\<forall>batch \<in> set (splitBatches i data). 0 < length batch \<and> length batch \<le> BATCH_SIZE_meta"
proof (induction i data rule: splitBatches.induct)
  case (1 i data)
  show ?case
  proof (cases "i < length data")
    case True
    with "1.IH" show ?thesis
      by (subst splitBatches.simps) (auto simp: BATCH_SIZE_meta_def)
  next
    case False
    then show ?thesis by (subst splitBatches.simps) simp
  qed
qed

lemma splitBatches_1500:
  assumes "length data = 1500"
  shows "splitBatches 0 data = [take 1000 data, drop 1000 data]"
proof -
  have 3: "splitBatches 2000 data = []"
    using assms by (subst splitBatches.simps) simp
  have 2: "splitBatches 1000 data = [drop 1000 data]"
    using assms by (subst splitBatches.simps) (simp add: BATCH_SIZE_meta_def 3)
  show ?thesis
    using assms by (subst splitBatches.simps) (simp add: BATCH_SIZE_meta_def 2)
qed

lemma showNat_digit: "n < 10 \<Longrightarrow> showNat n = [''0123456789'' ! n]"
  by (subst showNat.simps) simp

lemma scenario_D:
  assumes len: "length data = 1500" and ok: "remote 1 1 = None"
    and bad: "remote 2 1 = Some e" and nrl: "\<not> isRateLimitError e"
    and cred: "truthy tok" "truthy acct"
  shows "uploadToCustomerList tok acct remote data =
           \<lparr>effects = [UploadBatch 1 1, UploadBatch 2 1], received = take 1000 data,
            outcome = Inl (''Failed to upload batch 2: '' @ formatMetaError (asError e))\<rparr>"
proof -
  have a1: "attemptLoop remote 1 1 None = (None, True, [UploadBatch 1 1])"
    using ok attemptLoop_closed [of remote 1] by simp
  have a2: "attemptLoop remote 2 1 None = (Some (asError e), False, [UploadBatch 2 1])"
    using bad nrl attemptLoop_closed [of remote 2] by simp
  have s2: "showNat 2 = ''2''" by (simp add: showNat_digit)
  have "uploadBatches remote 0 [take 1000 data, drop 1000 data] 0 =
           \<lparr>effects = [UploadBatch 1 1, UploadBatch 2 1], received = take 1000 data,
            outcome = Inl (''Failed to upload batch 2: '' @ formatMetaError (asError e))\<rparr>"
    using a1 a2 s2 by (simp add: Let_def numeral_2_eq_2 [symmetric])
  with len cred show ?thesis
    by (simp add: uploadToCustomerList_def splitBatches_1500)
qed

text \<open>
  Claim C8. The data is cut into consecutive batches of at most 1000 records, uploaded
  in order. One batch is attempted at most three times: a failure classified as a rate
  limit is followed by a sleep of 1000 ms after the first attempt and 2000 ms after the
  second and then by the next attempt; any other failure ends the attempts on the batch
  at once; a third failure ends them whatever its class. When a batch ends in failure the
  run ends with the message built from the formatted remote error, the platform holds the
  batches before it and no later batch is attempted; when no batch fails the run returns
  the number of records. With 1500 records, a first batch that is accepted and a second
  batch whose first attempt fails outside the rate-limit class, the platform holds the
  first 1000 records and the run fails with that message.
\<close>

theorem sync_retry_abort:
  assumes cred: "truthy tok" "truthy acct"
  shows
  "attemptLoop remote b 1 None =
     (case remote b 1 of
        None \<Rightarrow> (None, True, [UploadBatch b 1])
      | Some e1 \<Rightarrow>
          if \<not> isRateLimitError e1 then (Some (asError e1), False, [UploadBatch b 1])
          else (case remote b 2 of
                  None \<Rightarrow> (None, True, [UploadBatch b 1, Sleep 1000, UploadBatch b 2])
                | Some e2 \<Rightarrow>
                    if \<not> isRateLimitError e2
                    then (Some (asError e2), False, [UploadBatch b 1, Sleep 1000, UploadBatch b 2])
                    else (case remote b 3 of
                            None \<Rightarrow> (None, True, [UploadBatch b 1, Sleep 1000, UploadBatch b 2,
                                                   Sleep 2000, UploadBatch b 3])
                          | Some e3 \<Rightarrow>
                              (Some (asError e3), False,
                               [UploadBatch b 1, Sleep 1000, UploadBatch b 2, Sleep 2000,
                                UploadBatch b 3])))) \<and>
   concat (splitBatches 0 data) = data \<and>
   (\<forall>batch \<in> set (splitBatches 0 data). 0 < length batch \<and> length batch \<le> 1000) \<and>
   sorted_wrt before (uploads (effects (uploadToCustomerList tok acct remote data))) \<and>
   (\<forall>p \<in> set (uploads (effects (uploadToCustomerList tok acct remote data))).
      1 \<le> fst p \<and> fst p \<le> length (splitBatches 0 data) \<and> 1 \<le> snd p \<and> snd p \<le> 3) \<and>
   length (filter (\<lambda>p. fst p = b)
             (uploads (effects (uploadToCustomerList tok acct remote data)))) \<le> 3 \<and>
   ((\<forall>n. 1 \<le> n \<and> n \<le> length (splitBatches 0 data) \<longrightarrow> batchFailure remote n = None) \<longrightarrow>
      outcome (uploadToCustomerList tok acct remote data) =
        Inr \<lparr>success = True, recordsUploaded = length data\<rparr> \<and>
      received (uploadToCustomerList tok acct remote data) = data) \<and>
   (1 \<le> j \<and> j \<le> length (splitBatches 0 data) \<and> batchFailure remote j = Some err \<and>
    (\<forall>n. 1 \<le> n \<and> n < j \<longrightarrow> batchFailure remote n = None) \<longrightarrow>
      outcome (uploadToCustomerList tok acct remote data) = Inl (failureMessage j err) \<and>
      received (uploadToCustomerList tok acct remote data) =
        concat (take (j - 1) (splitBatches 0 data)) \<and>
      (\<forall>p \<in> set (uploads (effects (uploadToCustomerList tok acct remote data))). fst p \<le> j)) \<and>
   (length data = 1500 \<and> remote 1 1 = None \<and> remote 2 1 = Some e \<and> \<not> isRateLimitError e \<longrightarrow>
      uploadToCustomerList tok acct remote data =
        \<lparr>effects = [UploadBatch 1 1, UploadBatch 2 1], received = take 1000 data,
         outcome = Inl (''Failed to upload batch 2: '' @ formatMetaError (asError e))\<rparr>)"
proof -
  let ?bs = "splitBatches 0 data"
  let ?run = "uploadToCustomerList tok acct remote data"
  have run: "?run = uploadBatches remote 0 ?bs 0"
  proof (cases "length data = 0")
    case True
    then have "?bs = []" by (subst splitBatches.simps) simp
    with True cred show ?thesis by (simp add: uploadToCustomerList_def)
  next
    case False
    with cred show ?thesis by (simp add: uploadToCustomerList_def)
  qed
  have cc: "concat ?bs = data" by (simp add: concat_splitBatches)
  have A: "sorted_wrt before (uploads (effects ?run))"
    unfolding run by (rule uploadBatches_sorted)
  have B: "\<forall>p \<in> set (uploads (effects ?run)).
      1 \<le> fst p \<and> fst p \<le> length ?bs \<and> 1 \<le> snd p \<and> snd p \<le> 3"
    unfolding run using uploadBatches_bounds [of remote 0 ?bs 0] by auto
  have C: "length (filter (\<lambda>p. fst p = b) (uploads (effects ?run))) \<le> 3"
    unfolding run by (rule uploadBatches_attempts)
  have D: "outcome ?run = Inr \<lparr>success = True, recordsUploaded = length data\<rparr> \<and>
      received ?run = data"
    if h: "\<forall>n. 1 \<le> n \<and> n \<le> length ?bs \<longrightarrow> batchFailure remote n = None"
  proof -
    from h have "\<forall>j < length ?bs. batchFailure remote (0 + j + 1) = None" by simp
    from uploadBatches_all_ok [OF this, of 0] cc show ?thesis
      unfolding run by (metis add_0 length_concat length_concat [symmetric])
  qed
  have E: "outcome ?run = Inl (failureMessage j err) \<and>
      received ?run = concat (take (j - 1) ?bs) \<and>
      (\<forall>p \<in> set (uploads (effects ?run)). fst p \<le> j)"
    if h: "1 \<le> j \<and> j \<le> length ?bs \<and> batchFailure remote j = Some err \<and>
        (\<forall>n. 1 \<le> n \<and> n < j \<longrightarrow> batchFailure remote n = None)"
  proof -
    from h have j: "1 \<le> j" "j \<le> length ?bs" by blast+
    then have 1: "j - 1 < length ?bs" by linarith
    from h j have 2: "batchFailure remote (0 + (j - 1) + 1) = Some err" by simp
    have 3: "\<forall>j' < j - 1. batchFailure remote (0 + j' + 1) = None"
    proof (intro allI impI)
      fix j' assume "j' < j - 1"
      then have "1 \<le> j' + 1 \<and> j' + 1 < j" by linarith
      with h show "batchFailure remote (0 + j' + 1) = None" by simp
    qed
    from uploadBatches_first_failure [OF 1 2 3, of 0] h show ?thesis
      unfolding run by simp
  qed
  have F: "?run = \<lparr>effects = [UploadBatch 1 1, UploadBatch 2 1], received = take 1000 data,
         outcome = Inl (''Failed to upload batch 2: '' @ formatMetaError (asError e))\<rparr>"
    if "length data = 1500 \<and> remote 1 1 = None \<and> remote 2 1 = Some e \<and> \<not> isRateLimitError e"
    using that cred scenario_D by blast
  have G: "\<forall>batch \<in> set ?bs. 0 < length batch \<and> length batch \<le> 1000"
    using splitBatches_lengths [of 0 data] by (simp add: BATCH_SIZE_meta_def)
  show ?thesis
    using attemptLoop_closed [of remote b] cc G A B C D E F by blast
qed

theorem sync_retry_abort_witness:
  "truthy (Some ''token'') \<and> truthy (Some ''act_1'') \<and>
   length (replicate 1500 \<lparr>EMAIL = Some ''e1'', PHONE = None, FN = None, LN = None\<rparr>) = 1500 \<and>
   \<not> isRateLimitError
       \<lparr>instanceofError = True, e_message = Some ''Invalid parameter'', e_code = None,
        e_error_user_msg = None, inner_error_user_msg = Some ''Invalid parameter'',
        inner_message = None, inner_code = Some 100, response_message = None,
        response_code = None, body_message = None, body_code = None\<rparr> \<and>
   uploadToCustomerList (Some ''token'') (Some ''act_1'')
     (\<lambda>b k. if b = 2
            then Some \<lparr>instanceofError = True, e_message = Some ''Invalid parameter'',
                       e_code = None, e_error_user_msg = None,
                       inner_error_user_msg = Some ''Invalid parameter'',
                       inner_message = None, inner_code = Some 100, response_message = None,
                       response_code = None, body_message = None, body_code = None\<rparr>
            else None)
     (replicate 1500 \<lparr>EMAIL = Some ''e1'', PHONE = None, FN = None, LN = None\<rparr>)
   = \<lparr>effects = [UploadBatch 1 1, UploadBatch 2 1],
      received = replicate 1000 \<lparr>EMAIL = Some ''e1'', PHONE = None, FN = None, LN = None\<rparr>,
      outcome = Inl ''Failed to upload batch 2: [100] Invalid parameter''\<rparr>"
proof -
  let ?err = "\<lparr>instanceofError = True, e_message = Some ''Invalid parameter'', e_code = None,
        e_error_user_msg = None, inner_error_user_msg = Some ''Invalid parameter'',
        inner_message = None, inner_code = Some 100, response_message = None,
        response_code = None, body_message = None, body_code = None\<rparr>"
  let ?remote = "\<lambda>b k::nat. if b = (2::nat) then Some ?err else None"
  let ?data = "replicate 1500 \<lparr>EMAIL = Some ''e1'', PHONE = None, FN = None, LN = None\<rparr>"
  have c1: "truthy (Some ''token'')" and c2: "truthy (Some ''act_1'')"
    by (simp_all add: truthy_def)
  have l: "length ?data = 1500" by simp
  have n: "\<not> isRateLimitError ?err"
    by (simp add: isRateLimitError_def toLowerCase_def toLowerChar_def)
  have f: "formatMetaError (asError ?err) = ''[100] Invalid parameter''"
    by (simp add: formatMetaError_def asError_def truthy_def bracketed_def codeOrUnknown_def
          showInt_def showNat.simps)
  have h: "length ?data = 1500 \<and> ?remote 1 1 = None \<and> ?remote 2 1 = Some ?err \<and>
           \<not> isRateLimitError ?err"
    using n by simp
  from sync_retry_abort [OF c1 c2, of ?remote 1 ?data 1 ?err ?err] h
  have "uploadToCustomerList (Some ''token'') (Some ''act_1'') ?remote ?data =
        \<lparr>effects = [UploadBatch 1 1, UploadBatch 2 1], received = take 1000 ?data,
         outcome = Inl (''Failed to upload batch 2: '' @ formatMetaError (asError ?err))\<rparr>"
    by blast
  with c1 c2 l n f show ?thesis by simp
qed

section \<open>Running reconciliation twice\<close>









































text \<open>Update mode needs the single record: with two records under the row's first
  strategy the first run changes one of them, and a second run that is handed the other
  one first changes that one too.\<close>

lemma rerun_needs_single_record:
  "\<not> atMostOne (firstStrategy \<lparr>firstName = ''Al'', lastName = [], email = Some ''a@x.com'',
                                 phone = None\<rparr> 1)
       (ex_store [ex_row 1 (Some ''a@x.com'') None ''Bo'' ''Lo'' ACTIVE,
                  ex_row 2 (Some ''a@x.com'') None ''Cy'' ''Mo'' ACTIVE]) \<and>
   snd (batchProcessWithMatch
      [\<lparr>firstName = ''Al'', lastName = [], email = Some ''a@x.com'', phone = None\<rparr>]
      \<lparr>o_mode = Update, o_clientId = 1, o_sourceFile = None\<rparr> 5
      (ex_store [ex_row 1 (Some ''a@x.com'') None ''Bo'' ''Lo'' ACTIVE,
                 ex_row 2 (Some ''a@x.com'') None ''Cy'' ''Mo'' ACTIVE]))
     = ex_store [(ex_row 1 (Some ''a@x.com'') None ''Al'' ''Lo'' ACTIVE)\<lparr>m_updatedAt := 5\<rparr>,
                 ex_row 2 (Some ''a@x.com'') None ''Cy'' ''Mo'' ACTIVE] \<and>
   b_updated (fst (batchProcessWithMatch
      [\<lparr>firstName = ''Al'', lastName = [], email = Some ''a@x.com'', phone = None\<rparr>]
      \<lparr>o_mode = Update, o_clientId = 1, o_sourceFile = None\<rparr> 6
      (ex_store [(ex_row 1 (Some ''a@x.com'') None ''Al'' ''Lo'' ACTIVE)\<lparr>m_updatedAt := 5\<rparr>,
                 ex_row 2 (Some ''a@x.com'') None ''Cy'' ''Mo'' ACTIVE]))) = 0 \<and>
   b_updated (fst (batchProcessWithMatch
      [\<lparr>firstName = ''Al'', lastName = [], email = Some ''a@x.com'', phone = None\<rparr>]
      \<lparr>o_mode = Update, o_clientId = 1, o_sourceFile = None\<rparr> 6
      (ex_store [ex_row 2 (Some ''a@x.com'') None ''Cy'' ''Mo'' ACTIVE,
                 (ex_row 1 (Some ''a@x.com'') None ''Al'' ''Lo'' ACTIVE)\<lparr>m_updatedAt := 5\<rparr>]))) = 1"
  by (simp add: atMostOne_def firstStrategy_def strategies_def
        batchProcessWithMatch_def processRecordWithMatch_def findMatchingRecord_def
        update_def updateData_def fieldsUpdatedOf_def truthy_def
        getRecordStatus_def nonBlank_def trim_def isSpace_def Let_def ex_simps)


section \<open>The batched path against the row-by-row path\<close>

lemma map_id_overwriteAt:
  "map m_id (members (overwriteAt k c today s)) = map m_id (members s)"
  by (simp add: overwriteAt_def overwrite_def comp_def if_distrib [of m_id])

lemma ids_overwriteAt [simp]: "ids (overwriteAt k c today s) = ids s"
  using map_id_overwriteAt [of k c today s] unfolding ids_def
  by (metis set_map)

lemma nextId_overwriteAt [simp]: "nextId (overwriteAt k c today s) = nextId s"
  by (simp add: overwriteAt_def)

lemma clients_overwriteAt [simp]: "clients (overwriteAt k c today s) = clients s"
  by (simp add: overwriteAt_def)

lemma valid_overwriteAt [simp]: "valid us (overwriteAt k c today s) = valid us s"
  by (simp add: valid_def)

lemma ids_applyAll [simp]: "ids (applyAll us today s) = ids s"
  by (induction us today s rule: applyAll.induct) (auto split: option.splits)

lemma nextId_applyAll [simp]: "nextId (applyAll us today s) = nextId s"
  by (induction us today s rule: applyAll.induct) (auto split: option.splits)

lemma valid_applyAll [simp]: "valid us (applyAll vs today s) = valid us s"
  by (simp add: valid_def)









lemma nextId_create [simp]: "nextId (snd (create m s)) = Suc (nextId s)"
  by (simp add: create_def Let_def)

lemma ids_create [simp]: "ids (snd (create m s)) = insert (nextId s) (ids s)"
  by (simp add: create_def Let_def ids_def)











lemma length_overwriteAt [simp]:
  "length (members (overwriteAt k c today s)) = length (members s)"
  by (simp add: overwriteAt_def)








end
